theory Spec2Isabelle
  imports Complex_Main
begin

section \<open>Errors\<close>

text \<open>
  The Python exceptions that the modelled code (or the numpy and builtin calls it makes)
  can raise. A failing call is a value \<open>Inl e\<close>.
\<close>

datatype error = ValueError | ZeroDivisionError | OverflowError | IndexError

section \<open>Map objects: tiles, outlines and the tile query (tmlib/models/mapobject.py)\<close>

subsection \<open>Geometries\<close>

text \<open>
  The code builds its tile geometries as WKT text, \<open>POLYGON((...))\<close> and
  \<open>LINESTRING(...)\<close>, from numbers. The model keeps the vertex list of the text.
  Coordinates are rationals: for \<open>z \<le> 6\<close> they are Python integers, for \<open>z > 6\<close> the
  power \<open>2 ** (6 - z)\<close> is the float \<open>2\<^sup>-\<^sup>k\<close>, which is exact.
\<close>

type_synonym point = "rat \<times> rat"

datatype geometry = POLYGON "point list" | LINESTRING "point list"

text \<open>PostGIS \<open>ST_NPoints\<close>: the number of vertices of a geometry.\<close>

fun ST_NPoints :: "geometry \<Rightarrow> nat" where
  "ST_NPoints (POLYGON ps) = length ps"
| "ST_NPoints (LINESTRING ps) = length ps"

text \<open>
  The tile query filters with PostGIS \<open>ST_Intersects\<close> (the geometries share a point);
  the estimator filters with \<open>geom_poly.intersects(tile)\<close>, the operator \<open>&&\<close> (the
  bounding boxes overlap). Both are computed by the database. The functions below take the
  filter as a parameter \<open>isect\<close>, so the general theorems hold for whatever the database
  computes; concrete inputs use \<open>rect_intersects\<close> for the first and \<open>bbox_intersects\<close>
  for the second.
\<close>

type_synonym intersects = "geometry \<Rightarrow> geometry \<Rightarrow> bool"

subsection \<open>\<open>MapobjectOutline.intersection_filter\<close>\<close>

text \<open>The constant \<open>max_zoom = 6\<close> of \<open>intersection_filter\<close>.\<close>

definition max_zoom :: int where
  "max_zoom = 6"

text \<open>\<open>size = 256 * 2 ** (max_zoom - z)\<close>\<close>

definition tile_size :: "int \<Rightarrow> rat" where
  "tile_size z = 256 * 2 powi (max_zoom - z)"

record tile_geometry =
  tile :: geometry
  top_border :: geometry
  left_border :: geometry

text \<open>
  The three geometries that \<open>intersection_filter x y z\<close> formats: the tile polygon and
  its two excluded borders.
\<close>

definition tile_geometries :: "int \<Rightarrow> int \<Rightarrow> int \<Rightarrow> tile_geometry" where
  "tile_geometries x y z =
     (let size = tile_size z;
          x0 = of_int x * size;
          y0 = of_int y * size;
          minx = x0;
          maxx = x0 + size;
          miny = - y0 - size;
          maxy = - y0
      in \<lparr> tile = POLYGON [(maxx, maxy), (minx, maxy), (minx, miny), (maxx, miny), (maxx, maxy)],
           top_border = LINESTRING [(minx, miny), (maxx, miny)],
           left_border = LINESTRING [(minx, maxy), (minx, miny)] \<rparr>)"

text \<open>
  The filter itself, as a predicate on the \<open>geom_poly\<close> of a row: it intersects the
  tile, and, unless \<open>x = 0\<close>, not the left border, and, unless \<open>y = 0\<close>, not the top
  border.
\<close>

definition intersection_filter :: "intersects \<Rightarrow> int \<Rightarrow> int \<Rightarrow> int \<Rightarrow> geometry \<Rightarrow> bool" where
  "intersection_filter isect x y z geom_poly =
     (let t = tile_geometries x y z;
          spatial_filter = isect geom_poly (tile t);
          spatial_filter = (if x \<noteq> 0
             then spatial_filter \<and> \<not> isect geom_poly (left_border t) else spatial_filter);
          spatial_filter = (if y \<noteq> 0
             then spatial_filter \<and> \<not> isect geom_poly (top_border t) else spatial_filter)
      in spatial_filter)"

subsection \<open>\<open>MapobjectType.get_mapobject_outlines_within_tile\<close>\<close>

text \<open>
  A row of \<open>mapobject_outlines\<close> joined with its \<open>mapobjects\<close> row, which carries the
  type. Both geometry columns are nullable.
\<close>

record mapobject_outline =
  outline_id :: nat
  mapobject_id :: nat
  mapobject_type_id :: nat
  tpoint :: "int option"
  zplane :: "int option"
  geom_poly :: "geometry option"
  geom_centroid :: "geometry option"

record mapobject_type =
  type_id :: nat
  is_static :: bool
  min_poly_zoom :: int

text \<open>
  The \<open>WHERE\<close> clause of the query. A comparison with SQL \<open>NULL\<close> is not true, so a
  row without polygon, or (for a type that is not static) without time point or z-plane,
  is not selected.
\<close>

definition outline_selected ::
  "intersects \<Rightarrow> mapobject_type \<Rightarrow> int \<Rightarrow> int \<Rightarrow> int \<Rightarrow> int \<Rightarrow> int \<Rightarrow> mapobject_outline \<Rightarrow> bool" where
  "outline_selected isect self x y z tp zp row =
     (mapobject_type_id row = type_id self \<and>
      (is_static self \<or> (tpoint row = Some tp \<and> zplane row = Some zp)) \<and>
      (case geom_poly row of None \<Rightarrow> False
       | Some g \<Rightarrow> intersection_filter isect x y z g))"

text \<open>
  The query result: for every selected row its \<open>mapobject_id\<close> and the centroid (below
  \<open>min_poly_zoom\<close>) or the polygon. \<open>ST_AsGeoJSON\<close> only changes the encoding and is left
  out.
\<close>

definition get_mapobject_outlines_within_tile ::
  "intersects \<Rightarrow> mapobject_outline list \<Rightarrow> mapobject_type \<Rightarrow> int \<Rightarrow> int \<Rightarrow> int \<Rightarrow> int \<Rightarrow> int
     \<Rightarrow> (nat \<times> geometry option) list" where
  "get_mapobject_outlines_within_tile isect table self x y z tp zp =
     (let do_simplify = z < min_poly_zoom self
      in map (\<lambda>row. (mapobject_id row,
                     if do_simplify then geom_centroid row else geom_poly row))
           (filter (outline_selected isect self x y z tp zp) table))"

subsection \<open>\<open>MapobjectType.calculate_min_poly_zoom\<close>\<close>

text \<open>\<open>tilesize = 256 * 2 ** (6 - z)\<close>, as the estimator's loop computes it.\<close>

definition tilesize :: "int \<Rightarrow> rat" where
  "tilesize z = 256 * 2 powi (6 - z)"

text \<open>The boundary of the sampled tile \<open>(x, y)\<close> at level \<open>z\<close>, a closed line string.\<close>

definition sample_tile :: "int \<Rightarrow> int \<Rightarrow> int \<Rightarrow> geometry" where
  "sample_tile z x y =
     (let x0 = of_int x * tilesize z;
          y0 = - of_int y * tilesize z;
          minx = x0;
          maxx = x0 + tilesize z;
          miny = y0 - tilesize z;
          maxy = y0
      in LINESTRING [(maxx, maxy), (minx, maxy), (minx, miny), (maxx, miny), (maxx, maxy)])"

text \<open>
  The scalar query: the sum of \<open>ST_NPoints\<close> over the rows whose id is among
  \<open>mapobject_outline_ids\<close> and whose polygon passes \<open>geom_poly.intersects(tile)\<close>, the
  operator \<open>&&\<close>, for the tile boundary. SQL \<open>SUM\<close> over no rows is \<open>NULL\<close>, Python's
  \<open>None\<close>.
\<close>

definition n_points_in_tile ::
  "intersects \<Rightarrow> mapobject_outline list \<Rightarrow> nat list \<Rightarrow> geometry \<Rightarrow> nat option" where
  "n_points_in_tile isect table mapobject_outline_ids t =
     (let hits = List.map_filter
            (\<lambda>row. if outline_id row \<in> set mapobject_outline_ids
                    then (case geom_poly row of None \<Rightarrow> None
                          | Some g \<Rightarrow> if isect g t then Some (ST_NPoints g) else None)
                    else None) table
      in if hits = [] then None else Some (sum_list hits))"

text \<open>
  One pass of the loop over \<open>z\<close>. \<open>rand_xs\<close> and \<open>rand_ys\<close> are the \<open>n_sample\<close> values
  that \<open>random.randrange(0, 2**z)\<close> returned at this level. The samples are the results
  that are not \<open>None\<close>; the entry of the level is \<open>int(float(sum(samples)) / len(samples))\<close>,
  which raises \<open>ZeroDivisionError\<close> on an empty list. The sums are far below
  \<open>2\<^sup>5\<^sup>3\<close>, where the float quotient truncates to the integer quotient.
\<close>

definition n_points_in_tile_samples ::
  "intersects \<Rightarrow> mapobject_outline list \<Rightarrow> nat list \<Rightarrow> int \<Rightarrow> int list \<Rightarrow> int list \<Rightarrow> nat list" where
  "n_points_in_tile_samples isect table ids z rand_xs rand_ys =
     List.map_filter (\<lambda>(x, y). n_points_in_tile isect table ids (sample_tile z x y))
       (zip rand_xs rand_ys)"

definition level_entry :: "nat list \<Rightarrow> error + int" where
  "level_entry samples =
     (if length samples = 0 then Inl ZeroDivisionError
      else Inr (int (sum_list samples) div int (length samples)))"

text \<open>
  The loop \<open>for z in range(maxzoom_level, -1, -1)\<close> filling the dictionary
  \<open>n_points_in_tile_per_z\<close>, here the list of its items. The first level that raises
  ends the call.
\<close>

fun fill_per_z :: "(int \<Rightarrow> nat list) \<Rightarrow> int list \<Rightarrow> error + (int \<times> int) list" where
  "fill_per_z samples_at [] = Inr []"
| "fill_per_z samples_at (z # zs) =
     (case level_entry (samples_at z) of
        Inl e \<Rightarrow> Inl e
      | Inr n \<Rightarrow> (case fill_per_z samples_at zs of
                   Inl e \<Rightarrow> Inl e
                 | Inr items \<Rightarrow> Inr ((z, n) # items)))"

text \<open>\<open>min([...])\<close>: Python raises \<open>ValueError\<close> on an empty list.\<close>

definition py_min :: "int list \<Rightarrow> error + int" where
  "py_min zs = (if zs = [] then Inl ValueError else Inr (min_list zs))"

text \<open>
  The whole function. \<open>rand_xs z\<close> and \<open>rand_ys z\<close> stand for the draws of level \<open>z\<close>;
  \<open>n_sample\<close> is their length.
\<close>

definition calculate_min_poly_zoom ::
  "intersects \<Rightarrow> mapobject_outline list \<Rightarrow> (int \<Rightarrow> int list) \<Rightarrow> (int \<Rightarrow> int list)
     \<Rightarrow> int \<Rightarrow> nat list \<Rightarrow> int \<Rightarrow> error + int" where
  "calculate_min_poly_zoom isect table rand_xs rand_ys
       maxzoom_level mapobject_outline_ids n_points_per_tile_limit =
     (case fill_per_z
             (\<lambda>z. n_points_in_tile_samples isect table mapobject_outline_ids z
                     (rand_xs z) (rand_ys z))
             (rev [0..maxzoom_level]) of
        Inl e \<Rightarrow> Inl e
      | Inr n_points_in_tile_per_z \<Rightarrow>
          py_min (map fst (filter (\<lambda>(z, n). n \<le> n_points_per_tile_limit)
                             n_points_in_tile_per_z)))"

text \<open>The draws are what \<open>randrange(0, 2**z)\<close> can return, \<open>n_sample\<close> of them per level.\<close>

definition valid_draws :: "nat \<Rightarrow> int \<Rightarrow> (int \<Rightarrow> int list) \<Rightarrow> (int \<Rightarrow> int list) \<Rightarrow> bool" where
  "valid_draws n_sample maxzoom_level rand_xs rand_ys =
     (\<forall>z \<in> set [0..maxzoom_level].
        length (rand_xs z) = n_sample \<and> length (rand_ys z) = n_sample \<and>
        (\<forall>x \<in> set (rand_xs z). 0 \<le> x \<and> x < 2 ^ nat z) \<and>
        (\<forall>y \<in> set (rand_ys z). 0 \<le> y \<and> y < 2 ^ nat z))"

subsection \<open>The two filters on concrete geometries\<close>

text \<open>
  The operator \<open>&&\<close> compares the bounding boxes of its two arguments, whatever their
  shapes: \<open>bbox_intersects\<close>. A geometry without vertices has no box and overlaps
  nothing.

  \<open>ST_Intersects\<close> is evaluated for outlines that are axis-aligned rectangles. On
  those, and on the geometries the tile query builds (a rectangle, a horizontal or vertical
  segment), it is decided by the bounding boxes as well: a filled rectangle meets a
  rectangle or a segment iff the boxes overlap. It meets the closed boundary of a
  rectangle iff the boxes overlap and it is not strictly inside. \<open>bbox\<close> is only taken
  of a list that has a first vertex.
\<close>

definition bbox :: "point list \<Rightarrow> rat \<times> rat \<times> rat \<times> rat" where
  "bbox ps = (fold min (map fst ps) (fst (hd ps)), fold max (map fst ps) (fst (hd ps)),
              fold min (map snd ps) (snd (hd ps)), fold max (map snd ps) (snd (hd ps)))"

definition boxes_overlap :: "rat \<times> rat \<times> rat \<times> rat \<Rightarrow> rat \<times> rat \<times> rat \<times> rat \<Rightarrow> bool" where
  "boxes_overlap a b =
     (case a of (ax0, ax1, ay0, ay1) \<Rightarrow> case b of (bx0, bx1, by0, by1) \<Rightarrow>
        ax0 \<le> bx1 \<and> bx0 \<le> ax1 \<and> ay0 \<le> by1 \<and> by0 \<le> ay1)"

definition box_strictly_inside :: "rat \<times> rat \<times> rat \<times> rat \<Rightarrow> rat \<times> rat \<times> rat \<times> rat \<Rightarrow> bool" where
  "box_strictly_inside a b =
     (case a of (ax0, ax1, ay0, ay1) \<Rightarrow> case b of (bx0, bx1, by0, by1) \<Rightarrow>
        bx0 < ax0 \<and> ax1 < bx1 \<and> by0 < ay0 \<and> ay1 < by1)"

fun vertices :: "geometry \<Rightarrow> point list" where
  "vertices (POLYGON ps) = ps"
| "vertices (LINESTRING ps) = ps"

definition bbox_intersects :: "geometry \<Rightarrow> geometry \<Rightarrow> bool" where
  "bbox_intersects g t =
     (vertices g \<noteq> [] \<and> vertices t \<noteq> [] \<and>
      boxes_overlap (bbox (vertices g)) (bbox (vertices t)))"

fun rect_intersects :: "geometry \<Rightarrow> geometry \<Rightarrow> bool" where
  "rect_intersects (POLYGON ps) (POLYGON ts) =
     (ps \<noteq> [] \<and> ts \<noteq> [] \<and> boxes_overlap (bbox ps) (bbox ts))"
| "rect_intersects (POLYGON ps) (LINESTRING ts) =
     (ps \<noteq> [] \<and> ts \<noteq> [] \<and>
      (if length ts = 2 then boxes_overlap (bbox ps) (bbox ts)
       else boxes_overlap (bbox ps) (bbox ts) \<and> \<not> box_strictly_inside (bbox ps) (bbox ts)))"
| "rect_intersects (LINESTRING ps) t = False"

text \<open>The rectangle \<open>[x0, x1] \<times> [y0, y1]\<close> as a closed ring of five vertices.\<close>

definition rectangle :: "rat \<Rightarrow> rat \<Rightarrow> rat \<Rightarrow> rat \<Rightarrow> geometry" where
  "rectangle x0 x1 y0 y1 = POLYGON [(x0, y0), (x1, y0), (x1, y1), (x0, y1), (x0, y0)]"

subsection \<open>Notions used to state the properties\<close>

text \<open>
  The edge that the tiles \<open>(x, y)\<close> and \<open>(x + 1, y)\<close> of level \<open>z\<close> share, from its upper
  to its lower end, and the edge that the tiles \<open>(x, y)\<close> and \<open>(x, y + 1)\<close> share, from
  left to right. Rows grow downwards on the screen, so tile \<open>(x, y + 1)\<close> is the one
  below.
\<close>

definition vertical_shared_edge :: "int \<Rightarrow> int \<Rightarrow> int \<Rightarrow> geometry" where
  "vertical_shared_edge x y z =
     LINESTRING [(of_int (x + 1) * tile_size z, - (of_int y * tile_size z)),
                 (of_int (x + 1) * tile_size z, - (of_int y * tile_size z) - tile_size z)]"

definition horizontal_shared_edge :: "int \<Rightarrow> int \<Rightarrow> int \<Rightarrow> geometry" where
  "horizontal_shared_edge x y z =
     LINESTRING [(of_int x * tile_size z, - (of_int (y + 1) * tile_size z)),
                 (of_int x * tile_size z + tile_size z, - (of_int (y + 1) * tile_size z))]"

text \<open>
  A shared edge is a part of the boundary of both tiles, so a polygon that has a point on
  the edge has a point in the tiles. The predicate says this of a filter \<open>isect\<close> and
  a polygon \<open>g\<close> at the tile \<open>(x, y)\<close>: contact with the edge shared with the tile to
  the right is contact with the tile, and contact with the edge shared with the tile below
  is contact with both of these. \<open>ST_Intersects\<close> has the property; its model on
  rectangles has it for every rectangle and every tile (lemma
  \<open>rect_intersects_edge_contact\<close>).
\<close>

definition edge_contact_is_tile_contact :: "intersects \<Rightarrow> geometry \<Rightarrow> int \<Rightarrow> int \<Rightarrow> int \<Rightarrow> bool" where
  "edge_contact_is_tile_contact isect g x y z =
     ((isect g (vertical_shared_edge x y z) \<longrightarrow> isect g (tile (tile_geometries x y z)))
      \<and> (isect g (horizontal_shared_edge x y z) \<longrightarrow>
           isect g (tile (tile_geometries x y z))
           \<and> isect g (tile (tile_geometries x (y + 1) z))))"

text \<open>
  The average of a level as the code stores it, and the exact average of the same
  samples.
\<close>

definition truncated_average :: "nat list \<Rightarrow> int" where
  "truncated_average samples = int (sum_list samples) div int (length samples)"

definition exact_average :: "nat list \<Rightarrow> rat" where
  "exact_average samples = of_nat (sum_list samples) / of_nat (length samples)"

subsection \<open>Concrete tables\<close>

text \<open>
  A type and six rectangular outlines. \<open>outline_edge\<close> has its right side on the
  whole edge between the tiles \<open>(1, 1)\<close> and \<open>(2, 1)\<close> of level 6 (\<open>x = 512\<close>,
  \<open>-512 \<le> y \<le> -256\<close>); \<open>outline_mid\<close> touches the middle of that edge only.
  \<open>outline_south\<close> crosses the edge \<open>y = -512\<close> between the tiles \<open>(1, 1)\<close> and
  \<open>(1, 2)\<close>, \<open>outline_north\<close> the edge \<open>y = -256\<close> between the tiles \<open>(1, 0)\<close>
  and \<open>(1, 1)\<close>.
  \<open>outline_west\<close> crosses the line \<open>x = 0\<close> and \<open>outline_east\<close> the line
  \<open>x = 16384\<close>; the latter has a sixth vertex on its right side.
\<close>

definition cells :: mapobject_type where
  "cells = \<lparr> type_id = 1, is_static = False, min_poly_zoom = 0 \<rparr>"

definition outline_edge :: mapobject_outline where
  "outline_edge = \<lparr> outline_id = 30, mapobject_id = 30, mapobject_type_id = 1,
       tpoint = Some 0, zplane = Some 0,
       geom_poly = Some (rectangle 400 512 (-512) (-256)), geom_centroid = None \<rparr>"

definition outline_mid :: mapobject_outline where
  "outline_mid = \<lparr> outline_id = 40, mapobject_id = 40, mapobject_type_id = 1,
       tpoint = Some 0, zplane = Some 0,
       geom_poly = Some (rectangle 400 512 (-400) (-300)), geom_centroid = None \<rparr>"

definition outline_south :: mapobject_outline where
  "outline_south = \<lparr> outline_id = 50, mapobject_id = 50, mapobject_type_id = 1,
       tpoint = Some 0, zplane = Some 0,
       geom_poly = Some (rectangle 300 400 (-520) (-500)), geom_centroid = None \<rparr>"

definition outline_north :: mapobject_outline where
  "outline_north = \<lparr> outline_id = 60, mapobject_id = 60, mapobject_type_id = 1,
       tpoint = Some 0, zplane = Some 0,
       geom_poly = Some (rectangle 300 400 (-260) (-250)), geom_centroid = None \<rparr>"

definition outline_west :: mapobject_outline where
  "outline_west = \<lparr> outline_id = 10, mapobject_id = 10, mapobject_type_id = 1,
       tpoint = Some 0, zplane = Some 0,
       geom_poly = Some (rectangle (-10) 10 (-110) (-90)), geom_centroid = None \<rparr>"

definition outline_east :: mapobject_outline where
  "outline_east = \<lparr> outline_id = 20, mapobject_id = 20, mapobject_type_id = 1,
       tpoint = Some 0, zplane = Some 0,
       geom_poly = Some (POLYGON [(16380, -110), (16390, -110), (16390, -100), (16390, -90),
                                   (16380, -90), (16380, -110)]),
       geom_centroid = None \<rparr>"

text \<open>
  Draws for a pyramid with \<open>maxzoom_level = 1\<close> and \<open>n_sample = 2\<close>: at level 1 the
  tiles \<open>(0, 0)\<close> and \<open>(1, 0)\<close>, or twice the tile \<open>(1, 1)\<close>, which no outline
  touches; at level 0 there is only the tile \<open>(0, 0)\<close>.
\<close>

definition draws_x :: "int \<Rightarrow> int list" where
  "draws_x z = (if z = 1 then [0, 1] else [0, 0])"

definition draws_y :: "int \<Rightarrow> int list" where
  "draws_y z = [0, 0]"

definition draws_miss :: "int \<Rightarrow> int list" where
  "draws_miss z = (if z = 1 then [1, 1] else [0, 0])"

section \<open>Online statistics (tmlib/workflow/corilla/stats.py)\<close>

subsection \<open>Floats\<close>

text \<open>
  A float is \<open>nan\<close>, one of the two infinities, or a number. The numbers are the real
  numbers: arithmetic on them is exact, and the results of the code agree with it up to
  rounding. Where an infinity or \<open>nan\<close> is involved the operations follow IEEE 754, as
  numpy does without raising: \<open>inf - inf\<close> and \<open>0 * inf\<close> are \<open>nan\<close>, and \<open>nan\<close>
  propagates. The sign of a zero is not modelled.
\<close>

datatype npfloat = NaN | NegInf | PosInf | Finite real

fun float_neg :: "npfloat \<Rightarrow> npfloat" where
  "float_neg NaN = NaN"
| "float_neg NegInf = PosInf"
| "float_neg PosInf = NegInf"
| "float_neg (Finite x) = Finite (- x)"

fun float_add :: "npfloat \<Rightarrow> npfloat \<Rightarrow> npfloat" where
  "float_add (Finite x) (Finite y) = Finite (x + y)"
| "float_add NaN b = NaN"
| "float_add a NaN = NaN"
| "float_add PosInf NegInf = NaN"
| "float_add NegInf PosInf = NaN"
| "float_add PosInf b = PosInf"
| "float_add NegInf b = NegInf"
| "float_add (Finite x) b = b"

definition float_sub :: "npfloat \<Rightarrow> npfloat \<Rightarrow> npfloat" where
  "float_sub a b = float_add a (float_neg b)"

fun float_mul :: "npfloat \<Rightarrow> npfloat \<Rightarrow> npfloat" where
  "float_mul (Finite x) (Finite y) = Finite (x * y)"
| "float_mul NaN b = NaN"
| "float_mul a NaN = NaN"
| "float_mul (Finite x) b =
     (if x = 0 then NaN else if 0 < x then b else float_neg b)"
| "float_mul a (Finite y) =
     (if y = 0 then NaN else if 0 < y then a else float_neg a)"
| "float_mul PosInf b = b"
| "float_mul NegInf b = float_neg b"

text \<open>
  The quotient of a float by a Python integer that is not negative (a count). Division
  of a numpy float by 0 does not raise either: it gives an infinity, or \<open>nan\<close> for
  \<open>0 / 0\<close>.
\<close>

fun float_div_int :: "npfloat \<Rightarrow> nat \<Rightarrow> npfloat" where
  "float_div_int (Finite x) k =
     (if k = 0 then (if x = 0 then NaN else if 0 < x then PosInf else NegInf)
      else Finite (x / real k))"
| "float_div_int a k = a"

text \<open>
  \<open>log10\<close> of a float: \<open>-inf\<close> at 0 and \<open>nan\<close> at a negative number, again without
  raising.
\<close>

fun float_log10 :: "npfloat \<Rightarrow> npfloat" where
  "float_log10 (Finite x) =
     (if 0 < x then Finite (log 10 x) else if x = 0 then NegInf else NaN)"
| "float_log10 PosInf = PosInf"
| "float_log10 a = NaN"

text \<open>The order in which numpy sorts floats: \<open>nan\<close> comes last.\<close>

fun float_le :: "npfloat \<Rightarrow> npfloat \<Rightarrow> bool" where
  "float_le (Finite x) (Finite y) = (x \<le> y)"
| "float_le a NaN = True"
| "float_le NaN b = False"
| "float_le NegInf b = True"
| "float_le a PosInf = True"
| "float_le PosInf b = False"
| "float_le (Finite x) NegInf = False"

fun float_insert :: "npfloat \<Rightarrow> npfloat list \<Rightarrow> npfloat list" where
  "float_insert x [] = [x]"
| "float_insert x (y # ys) = (if float_le x y then x # y # ys else y # float_insert x ys)"

definition float_sort :: "npfloat list \<Rightarrow> npfloat list" where
  "float_sort xs = foldr float_insert xs []"

fun is_finite :: "npfloat \<Rightarrow> bool" where
  "is_finite (Finite x) = True"
| "is_finite a = False"

fun is_positive :: "npfloat \<Rightarrow> bool" where
  "is_positive (Finite x) = (0 < x)"
| "is_positive a = False"

subsection \<open>numpy arrays\<close>

text \<open>
  An array is its shape and its elements in row-major order. The pixels of an image are
  an array of floats; \<open>astype(float)\<close> is then the identity.
\<close>

record 'a ndarray =
  shape :: "nat list"
  data :: "'a list"

definition np_zeros :: "nat list \<Rightarrow> npfloat ndarray" where
  "np_zeros dims = \<lparr> shape = dims, data = replicate (prod_list dims) (Finite 0) \<rparr>"

text \<open>
  Broadcasting of two shapes: aligned at their last axes, two extents go together if they
  are equal or one of them is 1. The function works on the reversed shapes.
\<close>

fun broadcast_shapes_rev :: "nat list \<Rightarrow> nat list \<Rightarrow> nat list option" where
  "broadcast_shapes_rev [] ys = Some ys"
| "broadcast_shapes_rev (x # xs) [] = Some (x # xs)"
| "broadcast_shapes_rev (x # xs) (y # ys) =
     (if x = y \<or> y = 1 then map_option (Cons x) (broadcast_shapes_rev xs ys)
      else if x = 1 then map_option (Cons y) (broadcast_shapes_rev xs ys)
      else None)"

definition broadcast_shapes :: "nat list \<Rightarrow> nat list \<Rightarrow> nat list option" where
  "broadcast_shapes a b = map_option rev (broadcast_shapes_rev (rev a) (rev b))"

text \<open>All indices of a shape in row-major order, and the position of an index.\<close>

fun indices :: "nat list \<Rightarrow> nat list list" where
  "indices [] = [[]]"
| "indices (d # ds) = concat (map (\<lambda>i. map (Cons i) (indices ds)) [0..<d])"

definition ravel :: "nat list \<Rightarrow> nat list \<Rightarrow> nat" where
  "ravel dims idx = foldl (\<lambda>acc (d, i). acc * d + i) 0 (zip dims idx)"

text \<open>
  The elements of \<open>a\<close> seen through the shape \<open>target\<close>: an index of the target loses
  its leading axes and is 0 along every axis where \<open>a\<close> has extent 1.
\<close>

definition broadcast_to :: "nat list \<Rightarrow> 'a ndarray \<Rightarrow> 'a list" where
  "broadcast_to target a =
     map (\<lambda>idx. data a ! ravel (shape a)
                  (map2 (\<lambda>d i. if d = 1 then 0 else i) (shape a)
                     (drop (length target - length (shape a)) idx)))
       (indices target)"

text \<open>
  An elementwise binary operation. Shapes that do not go together raise numpy's
  \<open>ValueError\<close> (operands could not be broadcast together). For equal shapes broadcasting
  changes nothing and the operation pairs the elements.
\<close>

definition np_binop ::
  "('a \<Rightarrow> 'a \<Rightarrow> 'a) \<Rightarrow> 'a ndarray \<Rightarrow> 'a ndarray \<Rightarrow> error + 'a ndarray" where
  "np_binop f a b =
     (if shape a = shape b then Inr \<lparr> shape = shape a, data = map2 f (data a) (data b) \<rparr>
      else (case broadcast_shapes (shape a) (shape b) of
              None \<Rightarrow> Inl ValueError
            | Some s \<Rightarrow> Inr \<lparr> shape = s,
                              data = map2 f (broadcast_to s a) (broadcast_to s b) \<rparr>))"

definition np_div_scalar :: "npfloat ndarray \<Rightarrow> nat \<Rightarrow> npfloat ndarray" where
  "np_div_scalar a k = \<lparr> shape = shape a, data = map (\<lambda>x. float_div_int x k) (data a) \<rparr>"

definition np_log10 :: "npfloat ndarray \<Rightarrow> npfloat ndarray" where
  "np_log10 a = \<lparr> shape = shape a, data = map float_log10 (data a) \<rparr>"

text \<open>\<open>np.linspace(start, stop, num)\<close> for \<open>num > 1\<close>.\<close>

definition np_linspace :: "real \<Rightarrow> real \<Rightarrow> nat \<Rightarrow> real list" where
  "np_linspace start stop num =
     map (\<lambda>i. start + real i * ((stop - start) / real (num - 1))) [0..<num]"

text \<open>
  \<open>np.percentile(a, q)\<close> with linear interpolation, on the flattened and sorted array:
  the percentile \<open>p\<close> sits at the position \<open>p / 100 * (N - 1)\<close>, between two neighbours,
  whose values are weighted and added. Percentiles outside \<open>[0, 100]\<close> raise
  \<open>ValueError\<close>. An array without elements has no percentile; the model makes the call
  fail. For an array that holds a \<open>nan\<close> numpy returns \<open>nan\<close> for every percentile.
\<close>

definition percentile_of :: "npfloat list \<Rightarrow> real \<Rightarrow> npfloat" where
  "percentile_of sorted_data p =
     (let N = length sorted_data;
          idx = p / 100 * real (N - 1);
          below = nat \<lfloor>idx\<rfloor>;
          above = min (below + 1) (N - 1);
          weight_above = idx - real below
      in float_add (float_mul (sorted_data ! below) (Finite (1 - weight_above)))
           (float_mul (sorted_data ! above) (Finite weight_above)))"

definition np_percentile :: "npfloat ndarray \<Rightarrow> real list \<Rightarrow> error + npfloat list" where
  "np_percentile a qs =
     (if \<not> list_all (\<lambda>p. 0 \<le> p \<and> p \<le> 100) qs then Inl ValueError
      else if data a = [] then Inl IndexError
      else if NaN \<in> set (data a) then Inr (map (\<lambda>p. NaN) qs)
      else Inr (map (percentile_of (float_sort (data a))) qs))"

subsection \<open>\<open>OnlineStatistics\<close>\<close>

text \<open>
  The attributes \<open>n\<close>, \<open>image_dimensions\<close>, \<open>_mean\<close>, \<open>_M2\<close>, \<open>_q\<close>, \<open>_percentiles\<close> and
  \<open>_keys\<close> of an instance.
\<close>

record OnlineStatistics =
  self_n :: nat
  self_image_dimensions :: "nat list"
  self_mean :: "npfloat ndarray"
  self_M2 :: "npfloat ndarray"
  self_q :: "real list"
  self_percentiles :: "npfloat list"
  self_keys :: "real list"

text \<open>
  Python 2 \<open>round(x, decimals)\<close> for \<open>x \<ge> 0\<close>, and \<open>int(x)\<close>, which truncates a
  number and raises \<open>ValueError\<close> for \<open>nan\<close> and \<open>OverflowError\<close> for an infinity.
\<close>

definition py_round :: "real \<Rightarrow> nat \<Rightarrow> real" where
  "py_round x decimals = of_int (round (x * 10 ^ decimals)) / 10 ^ decimals"

definition py_int :: "real \<Rightarrow> int" where
  "py_int x = (if 0 \<le> x then \<lfloor>x\<rfloor> else \<lceil>x\<rceil>)"

fun py_int_float :: "npfloat \<Rightarrow> error + int" where
  "py_int_float (Finite x) = Inr (py_int x)"
| "py_int_float NaN = Inl ValueError"
| "py_int_float a = Inl OverflowError"

text \<open>
  The constructor. \<open>np.empty\<close> allocates \<open>_percentiles\<close> without initialising it: its
  elements are whatever the memory holds, here the values \<open>memory i\<close>.
\<close>

definition new_statistics :: "nat list \<Rightarrow> int \<Rightarrow> (nat \<Rightarrow> npfloat) \<Rightarrow> OnlineStatistics" where
  "new_statistics image_dimensions decimals memory =
     (let precision = 10 ^ nat (decimals + 2);
          q = np_linspace 0 100 precision
      in \<lparr> self_n = 0,
           self_image_dimensions = image_dimensions,
           self_mean = np_zeros image_dimensions,
           self_M2 = np_zeros image_dimensions,
           self_q = q,
           self_percentiles = map memory [0..<precision],
           self_keys = map (\<lambda>x. py_round x (nat decimals)) q \<rparr>)"

definition OnlineStatistics_init ::
  "nat list \<Rightarrow> int \<Rightarrow> (nat \<Rightarrow> npfloat) \<Rightarrow> error + OnlineStatistics" where
  "OnlineStatistics_init image_dimensions decimals memory =
     (if \<not> (0 \<le> decimals \<and> decimals \<le> 3) then Inl ValueError
      else Inr (new_statistics image_dimensions decimals memory))"

text \<open>
  \<open>update\<close>. The call returns nothing; it changes the instance, also when it raises
  half-way. The model returns the outcome and the instance as the call leaves it.
\<close>

definition update ::
  "npfloat ndarray \<Rightarrow> bool \<Rightarrow> OnlineStatistics \<Rightarrow> (error + unit) \<times> OnlineStatistics" where
  "update img log_transform s =
     (case np_percentile img (self_q s) of
        Inl e \<Rightarrow> (Inl e, s)
      | Inr p \<Rightarrow>
          (let s1 = s \<lparr> self_percentiles := map2 float_add (self_percentiles s) p \<rparr>;
               array = (if log_transform then np_log10 img else img);
               s2 = s1 \<lparr> self_n := self_n s1 + 1 \<rparr>
           in case np_binop float_sub array (self_mean s2) of
                Inl e \<Rightarrow> (Inl e, s2)
              | Inr delta_mean \<Rightarrow>
                  (case np_binop float_add (self_mean s2)
                          (np_div_scalar delta_mean (self_n s2)) of
                     Inl e \<Rightarrow> (Inl e, s2)
                   | Inr m \<Rightarrow>
                       (let s3 = s2 \<lparr> self_mean := m \<rparr>
                        in case np_binop float_sub array (self_mean s3) of
                             Inl e \<Rightarrow> (Inl e, s3)
                           | Inr d \<Rightarrow>
                               (case np_binop float_mul delta_mean d of
                                  Inl e \<Rightarrow> (Inl e, s3)
                                | Inr t \<Rightarrow>
                                    (case np_binop float_add (self_M2 s3) t of
                                       Inl e \<Rightarrow> (Inl e, s3)
                                     | Inr m2 \<Rightarrow> (Inr (), s3 \<lparr> self_M2 := m2 \<rparr>)))))))"

text \<open>
  A series of images fed one at a time, as \<open>run_job\<close> does; the first call that raises
  ends the series.
\<close>

fun update_all ::
  "bool \<Rightarrow> npfloat ndarray list \<Rightarrow> OnlineStatistics \<Rightarrow> (error + unit) \<times> OnlineStatistics" where
  "update_all log_transform [] s = (Inr (), s)"
| "update_all log_transform (img # imgs) s =
     (case update img log_transform s of
        (Inl e, s') \<Rightarrow> (Inl e, s')
      | (Inr u, s') \<Rightarrow> update_all log_transform imgs s')"

text \<open>
  The properties \<open>var\<close> and \<open>mean\<close>. Neither has an operation that raises: \<open>var\<close>
  fills a new array of the shape \<open>image_dimensions\<close> with \<open>nan\<close> or divides \<open>_M2\<close>
  elementwise by the integer \<open>n - 1\<close>, so its result is an array in every case. Its
  elements are \<open>nan\<close> or infinite where those of \<open>_M2\<close> are.
\<close>

definition var :: "OnlineStatistics \<Rightarrow> npfloat ndarray" where
  "var s =
     (if self_n s < 2
      then \<lparr> shape = self_image_dimensions s,
             data = replicate (prod_list (self_image_dimensions s)) NaN \<rparr>
      else \<lparr> shape = shape (self_M2 s),
             data = map (\<lambda>x. float_div_int x (self_n s - 1)) (data (self_M2 s)) \<rparr>)"

definition mean :: "OnlineStatistics \<Rightarrow> npfloat ndarray" where
  "mean s = self_mean s"

text \<open>
  The property \<open>percentiles\<close>. The dictionary comprehension computes its items in the
  order of \<open>_percentiles\<close>; the first item for which \<open>int\<close> raises ends it. In the
  dictionary a later item replaces an earlier one with the same key. \<open>_keys\<close> and
  \<open>_percentiles\<close> have the same length from the constructor on, so \<open>self._keys[i]\<close> is
  in range. With \<open>n = 0\<close> the quotient \<open>x / self.n\<close> of the first item is \<open>nan\<close> or
  infinite and \<open>int\<close> raises.
\<close>

definition percentile_item :: "OnlineStatistics \<Rightarrow> nat \<times> npfloat \<Rightarrow> error + real \<times> int" where
  "percentile_item s ix =
     (case ix of (i, x) \<Rightarrow>
        (case py_int_float (float_div_int x (self_n s)) of
           Inl e \<Rightarrow> Inl e
         | Inr v \<Rightarrow> Inr (self_keys s ! i, v)))"

fun items_until_error :: "(error + 'a) list \<Rightarrow> error + 'a list" where
  "items_until_error [] = Inr []"
| "items_until_error (Inl e # rs) = Inl e"
| "items_until_error (Inr v # rs) =
     (case items_until_error rs of Inl e \<Rightarrow> Inl e | Inr vs \<Rightarrow> Inr (v # vs))"

definition percentile_items :: "OnlineStatistics \<Rightarrow> error + (real \<times> int) list" where
  "percentile_items s =
     items_until_error (map (percentile_item s) (enumerate 0 (self_percentiles s)))"

definition percentiles :: "OnlineStatistics \<Rightarrow> error + (real \<rightharpoonup> int)" where
  "percentiles s =
     (case percentile_items s of
        Inl e \<Rightarrow> Inl e
      | Inr items \<Rightarrow> Inr (map_of (rev items)))"

text \<open>
  Notions used to state the properties: the number that a finite float is, the series of
  the values of one pixel, and the direct two-pass computation.
\<close>

fun the_real :: "npfloat \<Rightarrow> real" where
  "the_real (Finite x) = x"
| "the_real a = 0"

definition pixel_series :: "npfloat ndarray list \<Rightarrow> nat \<Rightarrow> real list" where
  "pixel_series imgs j = map (\<lambda>img. the_real (data img ! j)) imgs"

definition two_pass_mean :: "real list \<Rightarrow> real" where
  "two_pass_mean xs = sum_list xs / real (length xs)"

definition two_pass_variance :: "real list \<Rightarrow> real" where
  "two_pass_variance xs =
     sum_list (map (\<lambda>x. (x - two_pass_mean xs)\<^sup>2) xs) / real (length xs - 1)"

definition constant_image :: "nat list \<Rightarrow> real \<Rightarrow> npfloat ndarray" where
  "constant_image dims v = \<lparr> shape = dims, data = replicate (prod_list dims) (Finite v) \<rparr>"

text \<open>
  An image of the shape \<open>dims\<close>, and an instance whose arrays have that shape, whose
  percentiles lie in \<open>[0, 100]\<close> and whose percentile sums are as many as its percentiles.
  Every instance that the constructor returns is of this kind.
\<close>

definition image_of_shape :: "nat list \<Rightarrow> 'a ndarray \<Rightarrow> bool" where
  "image_of_shape dims img = (shape img = dims \<and> length (data img) = prod_list dims)"

definition well_shaped :: "nat list \<Rightarrow> OnlineStatistics \<Rightarrow> bool" where
  "well_shaped dims s =
     (image_of_shape dims (self_mean s) \<and> image_of_shape dims (self_M2 s) \<and>
      self_image_dimensions s = dims \<and>
      list_all (\<lambda>p. 0 \<le> p \<and> p \<le> 100) (self_q s) \<and>
      length (self_percentiles s) = length (self_q s))"

subsection \<open>Concrete images\<close>

definition pixels_1_2 :: "npfloat ndarray" where
  "pixels_1_2 = \<lparr> shape = [2], data = [Finite 1, Finite 2] \<rparr>"

definition pixels_3_6 :: "npfloat ndarray" where
  "pixels_3_6 = \<lparr> shape = [2], data = [Finite 3, Finite 6] \<rparr>"

definition pixels_1_10 :: "npfloat ndarray" where
  "pixels_1_10 = \<lparr> shape = [2], data = [Finite 1, Finite 10] \<rparr>"

definition pixels_100_10 :: "npfloat ndarray" where
  "pixels_100_10 = \<lparr> shape = [2], data = [Finite 100, Finite 10] \<rparr>"

definition pixels_0_10 :: "npfloat ndarray" where
  "pixels_0_10 = \<lparr> shape = [2], data = [Finite 0, Finite 10] \<rparr>"

definition pixels_4 :: "npfloat ndarray" where
  "pixels_4 = \<lparr> shape = [1], data = [Finite 4] \<rparr>"

definition pixels_1_2_3 :: "npfloat ndarray" where
  "pixels_1_2_3 = \<lparr> shape = [3], data = [Finite 1, Finite 2, Finite 3] \<rparr>"

section \<open>Properties of the tile query and of the zoom estimator\<close>

subsection \<open>Evaluation of the concrete tables\<close>

lemmas fixture_simps = outline_edge_def outline_mid_def outline_west_def outline_east_def
  outline_south_def outline_north_def bbox_intersects_def cells_def draws_x_def draws_y_def draws_miss_def
  n_points_in_tile_samples_def n_points_in_tile_def sample_tile_def tilesize_def
  get_mapobject_outlines_within_tile_def outline_selected_def intersection_filter_def
  tile_geometries_def tile_size_def max_zoom_def vertical_shared_edge_def
  horizontal_shared_edge_def
  rectangle_def bbox_def boxes_overlap_def box_strictly_inside_def List.map_filter_def Let_def

lemma upto_0_1: "[0..1::int] = [0, 1]"
  by (simp add: upto.simps)

lemma draws_are_valid:
  "valid_draws 2 1 draws_x draws_y" "valid_draws 2 1 draws_miss draws_miss"
  by (simp_all add: valid_draws_def upto_0_1 draws_x_def draws_y_def draws_miss_def)

lemma samples_level_1:
  "n_points_in_tile_samples bbox_intersects [outline_west, outline_east] [10, 20] 1
     (draws_x 1) (draws_y 1) = [5, 6]"
  by (simp add: fixture_simps)

lemma samples_level_0:
  "n_points_in_tile_samples bbox_intersects [outline_west, outline_east] [10, 20] 0
     (draws_x 0) (draws_y 0) = [11, 11]"
  by (simp add: fixture_simps)

lemma samples_miss_level_1:
  "n_points_in_tile_samples bbox_intersects [outline_west, outline_east] [10, 20] 1
     (draws_miss 1) (draws_miss 1) = []"
  by (simp add: fixture_simps)

lemma samples_miss_level_0:
  "n_points_in_tile_samples bbox_intersects [outline_west, outline_east] [10, 20] 0
     (draws_miss 0) (draws_miss 0) = [11, 11]"
  by (simp add: fixture_simps)

subsection \<open>The loop over the levels\<close>

lemma level_entry_nonempty:
  "samples \<noteq> [] \<Longrightarrow> level_entry samples = Inr (truncated_average samples)"
  by (simp add: level_entry_def truncated_average_def)

lemma fill_per_z_ok:
  "\<forall>z \<in> set zs. samples_at z \<noteq> [] \<Longrightarrow>
   fill_per_z samples_at zs = Inr (map (\<lambda>z. (z, truncated_average (samples_at z))) zs)"
  by (induction zs) (simp_all add: level_entry_nonempty)

lemma fill_per_z_fail:
  "z \<in> set zs \<Longrightarrow> samples_at z = [] \<Longrightarrow> fill_per_z samples_at zs = Inl ZeroDivisionError"
proof (induction zs)
  case Nil
  then show ?case by simp
next
  case (Cons a zs)
  show ?case
  proof (cases "samples_at a = []")
    case True
    then show ?thesis by (simp add: level_entry_def)
  next
    case False
    with Cons have "fill_per_z samples_at zs = Inl ZeroDivisionError" by auto
    with False show ?thesis by (simp add: level_entry_nonempty)
  qed
qed

lemma qualifying_levels:
  "map fst (filter (\<lambda>(z, n). n \<le> limit) (map (\<lambda>z. (z, f z)) zs)) =
   filter (\<lambda>z. f z \<le> limit) zs"
  by (induction zs) simp_all

lemma calculate_min_poly_zoom_all_levels_sampled:
  assumes "\<forall>z \<in> {0..m}. n_points_in_tile_samples isect table ids z (rand_xs z) (rand_ys z) \<noteq> []"
  shows "calculate_min_poly_zoom isect table rand_xs rand_ys m ids limit =
    py_min (filter (\<lambda>z. truncated_average
        (n_points_in_tile_samples isect table ids z (rand_xs z) (rand_ys z)) \<le> limit) (rev [0..m]))"
  using assms
  by (simp add: calculate_min_poly_zoom_def fill_per_z_ok qualifying_levels)

lemma unsampled_level_entry:
  "level_entry [] = Inl ZeroDivisionError"
  by (simp add: level_entry_def)

lemma py_min_filter:
  assumes "z0 \<in> set zs" "P z0"
  shows "\<exists>z. py_min (filter P zs) = Inr z \<and> z \<in> set zs \<and> P z \<and> (\<forall>z' \<in> set zs. P z' \<longrightarrow> z \<le> z')"
proof -
  let ?q = "filter P zs"
  from assms have ne: "?q \<noteq> []" by (auto simp: filter_empty_conv)
  then have m: "min_list ?q = Min (set ?q)" by (rule min_list_Min)
  have fin: "finite (set ?q)" by simp
  from ne have "set ?q \<noteq> {}" by (simp only: set_empty not_False_eq_True)
  with fin have "Min (set ?q) \<in> set ?q" by (rule Min_in)
  then have a: "Min (set ?q) \<in> set zs" "P (Min (set ?q))" by simp_all
  have b: "\<forall>z' \<in> set zs. P z' \<longrightarrow> Min (set ?q) \<le> z'" by simp
  have "py_min ?q = Inr (Min (set ?q))" using ne m by (simp add: py_min_def)
  with a b show ?thesis by blast
qed

lemma unsampled_level_raises:
  assumes "z \<in> {0..m}" "n_points_in_tile_samples isect table ids z (rand_xs z) (rand_ys z) = []"
  shows "calculate_min_poly_zoom isect table rand_xs rand_ys m ids limit = Inl ZeroDivisionError"
proof -
  from assms(1) have "z \<in> set (rev [0..m])" by simp
  from fill_per_z_fail [of z "rev [0..m]" "\<lambda>z. n_points_in_tile_samples isect table ids z (rand_xs z) (rand_ys z)", OF this] assms(2)
  show ?thesis by (simp add: calculate_min_poly_zoom_def)
qed

subsection \<open>Shared borders of adjacent tiles\<close>

lemma left_border_is_shared_edge:
  "left_border (tile_geometries (x + 1) y z) = vertical_shared_edge x y z"
  by (simp add: tile_geometries_def vertical_shared_edge_def Let_def)

lemma top_border_is_shared_edge:
  "top_border (tile_geometries x y z) = horizontal_shared_edge x y z"
  by (simp add: tile_geometries_def horizontal_shared_edge_def Let_def algebra_simps)

lemma vertical_shared_edge_on_both_tiles:
  "set (vertices (vertical_shared_edge x y z)) \<subseteq>
     set (vertices (tile (tile_geometries x y z))) \<inter>
     set (vertices (tile (tile_geometries (x + 1) y z)))"
  by (simp add: tile_geometries_def vertical_shared_edge_def Let_def algebra_simps)

lemma horizontal_shared_edge_on_both_tiles:
  "set (vertices (horizontal_shared_edge x y z)) \<subseteq>
     set (vertices (tile (tile_geometries x y z))) \<inter>
     set (vertices (tile (tile_geometries x (y + 1) z)))"
  by (simp add: tile_geometries_def horizontal_shared_edge_def Let_def algebra_simps)

lemma outline_in_result_iff:
  assumes "geom_poly row = Some g"
  shows "row \<in> set (filter (outline_selected isect self x y z tp zp) table) \<longleftrightarrow>
     row \<in> set table \<and> mapobject_type_id row = type_id self
     \<and> (is_static self \<or> (tpoint row = Some tp \<and> zplane row = Some zp))
     \<and> isect g (tile (tile_geometries x y z))
     \<and> (x = 0 \<or> \<not> isect g (left_border (tile_geometries x y z)))
     \<and> (y = 0 \<or> \<not> isect g (top_border (tile_geometries x y z)))"
  using assms by (auto simp: outline_selected_def intersection_filter_def Let_def)

lemma rect_on_vertical_edge_meets_left_tile:
  assumes "rect_intersects (rectangle a b c d) (vertical_shared_edge x y z)"
  shows "rect_intersects (rectangle a b c d) (tile (tile_geometries x y z))"
proof -
  have "0 < tile_size z" by (simp add: tile_size_def)
  with assms show ?thesis
    by (simp add: vertical_shared_edge_def tile_geometries_def Let_def rectangle_def bbox_def
        boxes_overlap_def algebra_simps min_def max_def split: if_splits)
qed

lemma rect_on_horizontal_edge_meets_lower_tile:
  assumes "rect_intersects (rectangle a b c d) (horizontal_shared_edge x y z)"
  shows "rect_intersects (rectangle a b c d) (tile (tile_geometries x (y + 1) z))"
proof -
  have "0 < tile_size z" by (simp add: tile_size_def)
  with assms show ?thesis
    by (simp add: horizontal_shared_edge_def tile_geometries_def Let_def rectangle_def bbox_def
        boxes_overlap_def algebra_simps min_def max_def split: if_splits)
qed

lemma rect_on_horizontal_edge_meets_upper_tile:
  assumes "rect_intersects (rectangle a b c d) (horizontal_shared_edge x y z)"
  shows "rect_intersects (rectangle a b c d) (tile (tile_geometries x y z))"
proof -
  have "0 < tile_size z" by (simp add: tile_size_def)
  with assms show ?thesis
    by (simp add: horizontal_shared_edge_def tile_geometries_def Let_def rectangle_def bbox_def
        boxes_overlap_def algebra_simps min_def max_def split: if_splits)
qed

lemma rect_intersects_edge_contact:
  "edge_contact_is_tile_contact rect_intersects (rectangle a b c d) x y z"
  unfolding edge_contact_is_tile_contact_def
  by (intro conjI impI rect_on_vertical_edge_meets_left_tile
      rect_on_horizontal_edge_meets_lower_tile rect_on_horizontal_edge_meets_upper_tile)

text \<open>
  Claim C2, as the code has it. Let an outline have a polygon \<open>g\<close>.

  If \<open>g\<close> intersects the edge shared by the tiles \<open>(x, y)\<close> and \<open>(x + 1, y)\<close>, the query
  for the right tile does not return the outline. If \<open>g\<close> intersects the edge shared by
  the tiles \<open>(x, y)\<close> and \<open>(x, y + 1)\<close> and \<open>y \<noteq> 0\<close>, the query for the upper tile
  \<open>(x, y)\<close> does not return it.

  The other tile of the pair returns the outline exactly when the outline is a row of the
  table and of the type (and, unless the type is static, of the time point and z-plane)
  and its polygon does not intersect the excluded borders of that tile itself: for the
  left tile \<open>(x, y)\<close> its left border (unless \<open>x = 0\<close>) and its border towards the tile
  below (unless \<open>y = 0\<close>), for the lower tile \<open>(x, y + 1)\<close> its left border and its
  border towards the tile \<open>(x, y + 2)\<close>. So the outline is in exactly one of the two
  results unless it touches such a border, and then it is in neither.

  If \<open>y = 0\<close>, the upper tile excludes nothing along the shared edge: it returns the
  outline unless the polygon intersects its left border, and the lower tile returns it as
  in the previous case, so both can.
\<close>

theorem shared_border_outline_in_one_tile_unless_excluded:
  assumes g: "geom_poly row = Some g"
  shows "(0 \<le> x \<and> isect g (vertical_shared_edge x y z) \<longrightarrow>
            row \<notin> set (filter (outline_selected isect self (x + 1) y z tp zp) table))
       \<and> (y \<noteq> 0 \<and> isect g (horizontal_shared_edge x y z) \<longrightarrow>
            row \<notin> set (filter (outline_selected isect self x y z tp zp) table))
       \<and> (edge_contact_is_tile_contact isect g x y z \<longrightarrow>
            (isect g (vertical_shared_edge x y z) \<longrightarrow>
               (row \<in> set (filter (outline_selected isect self x y z tp zp) table) \<longleftrightarrow>
                  row \<in> set table \<and> mapobject_type_id row = type_id self
                  \<and> (is_static self \<or> (tpoint row = Some tp \<and> zplane row = Some zp))
                  \<and> (x = 0 \<or> \<not> isect g (left_border (tile_geometries x y z)))
                  \<and> (y = 0 \<or> \<not> isect g (top_border (tile_geometries x y z)))))
          \<and> (isect g (horizontal_shared_edge x y z) \<longrightarrow>
               (row \<in> set (filter (outline_selected isect self x (y + 1) z tp zp) table) \<longleftrightarrow>
                  row \<in> set table \<and> mapobject_type_id row = type_id self
                  \<and> (is_static self \<or> (tpoint row = Some tp \<and> zplane row = Some zp))
                  \<and> (x = 0 \<or> \<not> isect g (left_border (tile_geometries x (y + 1) z)))
                  \<and> (y + 1 = 0 \<or> \<not> isect g (top_border (tile_geometries x (y + 1) z))))
             \<and> (y = 0 \<longrightarrow>
                  (row \<in> set (filter (outline_selected isect self x y z tp zp) table) \<longleftrightarrow>
                     row \<in> set table \<and> mapobject_type_id row = type_id self
                     \<and> (is_static self \<or> (tpoint row = Some tp \<and> zplane row = Some zp))
                     \<and> (x = 0 \<or> \<not> isect g (left_border (tile_geometries x y z)))))))"
proof -
  have right: "row \<notin> set (filter (outline_selected isect self (x + 1) y z tp zp) table)"
    if "0 \<le> x \<and> isect g (vertical_shared_edge x y z)"
  proof -
    from that have "x + 1 \<noteq> 0" and "isect g (left_border (tile_geometries (x + 1) y z))"
      by (simp_all add: left_border_is_shared_edge)
    then show ?thesis unfolding outline_in_result_iff [OF g] by simp
  qed
  have upper: "row \<notin> set (filter (outline_selected isect self x y z tp zp) table)"
    if "y \<noteq> 0 \<and> isect g (horizontal_shared_edge x y z)"
  proof -
    from that have "y \<noteq> 0" and "isect g (top_border (tile_geometries x y z))"
      by (simp_all add: top_border_is_shared_edge)
    then show ?thesis unfolding outline_in_result_iff [OF g] by simp
  qed
  have left: "row \<in> set (filter (outline_selected isect self x y z tp zp) table) \<longleftrightarrow>
        row \<in> set table \<and> mapobject_type_id row = type_id self
        \<and> (is_static self \<or> (tpoint row = Some tp \<and> zplane row = Some zp))
        \<and> (x = 0 \<or> \<not> isect g (left_border (tile_geometries x y z)))
        \<and> (y = 0 \<or> \<not> isect g (top_border (tile_geometries x y z)))"
    if "edge_contact_is_tile_contact isect g x y z" "isect g (vertical_shared_edge x y z)"
  proof -
    from that have "isect g (tile (tile_geometries x y z))"
      by (simp add: edge_contact_is_tile_contact_def)
    then show ?thesis unfolding outline_in_result_iff [OF g] by simp
  qed
  have lower: "row \<in> set (filter (outline_selected isect self x (y + 1) z tp zp) table) \<longleftrightarrow>
        row \<in> set table \<and> mapobject_type_id row = type_id self
        \<and> (is_static self \<or> (tpoint row = Some tp \<and> zplane row = Some zp))
        \<and> (x = 0 \<or> \<not> isect g (left_border (tile_geometries x (y + 1) z)))
        \<and> (y + 1 = 0 \<or> \<not> isect g (top_border (tile_geometries x (y + 1) z)))"
    if "edge_contact_is_tile_contact isect g x y z" "isect g (horizontal_shared_edge x y z)"
  proof -
    from that have "isect g (tile (tile_geometries x (y + 1) z))"
      by (simp add: edge_contact_is_tile_contact_def)
    then show ?thesis unfolding outline_in_result_iff [OF g] by simp
  qed
  have row0: "row \<in> set (filter (outline_selected isect self x y z tp zp) table) \<longleftrightarrow>
        row \<in> set table \<and> mapobject_type_id row = type_id self
        \<and> (is_static self \<or> (tpoint row = Some tp \<and> zplane row = Some zp))
        \<and> (x = 0 \<or> \<not> isect g (left_border (tile_geometries x y z)))"
    if "edge_contact_is_tile_contact isect g x y z" "isect g (horizontal_shared_edge x y z)"
      "y = 0"
  proof -
    from that have "isect g (tile (tile_geometries x y z))"
      by (simp add: edge_contact_is_tile_contact_def)
    with that(3) show ?thesis unfolding outline_in_result_iff [OF g] by simp
  qed
  from right upper left lower row0 show ?thesis by blast
qed

theorem shared_border_outline_in_one_tile_unless_excluded_witness:
  "geom_poly outline_mid = Some (rectangle 400 512 (-400) (-300))
   \<and> rect_intersects (rectangle 400 512 (-400) (-300)) (vertical_shared_edge 1 1 6)
   \<and> edge_contact_is_tile_contact rect_intersects (rectangle 400 512 (-400) (-300)) 1 1 6
   \<and> outline_mid \<in> set (filter (outline_selected rect_intersects cells 1 1 6 0 0)
        [outline_mid, outline_south, outline_north])
   \<and> outline_mid \<notin> set (filter (outline_selected rect_intersects cells 2 1 6 0 0)
        [outline_mid, outline_south, outline_north])
   \<and> geom_poly outline_south = Some (rectangle 300 400 (-520) (-500))
   \<and> rect_intersects (rectangle 300 400 (-520) (-500)) (horizontal_shared_edge 1 1 6)
   \<and> edge_contact_is_tile_contact rect_intersects (rectangle 300 400 (-520) (-500)) 1 1 6
   \<and> outline_south \<notin> set (filter (outline_selected rect_intersects cells 1 1 6 0 0)
        [outline_mid, outline_south, outline_north])
   \<and> outline_south \<in> set (filter (outline_selected rect_intersects cells 1 2 6 0 0)
        [outline_mid, outline_south, outline_north])
   \<and> geom_poly outline_north = Some (rectangle 300 400 (-260) (-250))
   \<and> rect_intersects (rectangle 300 400 (-260) (-250)) (horizontal_shared_edge 1 0 6)
   \<and> edge_contact_is_tile_contact rect_intersects (rectangle 300 400 (-260) (-250)) 1 0 6
   \<and> outline_north \<in> set (filter (outline_selected rect_intersects cells 1 0 6 0 0)
        [outline_mid, outline_south, outline_north])
   \<and> outline_north \<in> set (filter (outline_selected rect_intersects cells 1 1 6 0 0)
        [outline_mid, outline_south, outline_north])"
proof -
  let ?T = "[outline_mid, outline_south, outline_north]"
  have gm: "geom_poly outline_mid = Some (rectangle 400 512 (-400) (-300))"
    and gs: "geom_poly outline_south = Some (rectangle 300 400 (-520) (-500))"
    and gn: "geom_poly outline_north = Some (rectangle 300 400 (-260) (-250))"
    by (simp_all add: outline_mid_def outline_south_def outline_north_def)
  have em: "rect_intersects (rectangle 400 512 (-400) (-300)) (vertical_shared_edge 1 1 6)"
    and es: "rect_intersects (rectangle 300 400 (-520) (-500)) (horizontal_shared_edge 1 1 6)"
    and en: "rect_intersects (rectangle 300 400 (-260) (-250)) (horizontal_shared_edge 1 0 6)"
    by (simp_all add: fixture_simps)
  note cm = rect_intersects_edge_contact [of 400 512 "-400" "-300" 1 1 6]
  note cs = rect_intersects_edge_contact [of 300 400 "-520" "-500" 1 1 6]
  note cn = rect_intersects_edge_contact [of 300 400 "-260" "-250" 1 0 6]
  have x1: "(0::int) \<le> 1" and y1: "(1::int) \<noteq> 0" and y0: "(0::int) = 0" by simp_all
  note M = shared_border_outline_in_one_tile_unless_excluded [OF gm,
      of 1 rect_intersects 1 6 cells 0 0 ?T]
  note S = shared_border_outline_in_one_tile_unless_excluded [OF gs,
      of 1 rect_intersects 1 6 cells 0 0 ?T]
  note N = shared_border_outline_in_one_tile_unless_excluded [OF gn,
      of 1 rect_intersects 0 6 cells 0 0 ?T]
  note m_right = M [THEN conjunct1, rule_format, OF conjI [OF x1 em]]
  note m_iff = M [THEN conjunct2, THEN conjunct2, rule_format, OF cm, THEN conjunct1,
      rule_format, OF em]
  note s_up = S [THEN conjunct2, THEN conjunct1, rule_format, OF conjI [OF y1 es]]
  note s_iff = S [THEN conjunct2, THEN conjunct2, rule_format, OF cs, THEN conjunct2,
      rule_format, OF es, THEN conjunct1]
  note n_both = N [THEN conjunct2, THEN conjunct2, rule_format, OF cn, THEN conjunct2,
      rule_format, OF en]
  have m_left: "outline_mid \<in> set (filter (outline_selected rect_intersects cells 1 1 6 0 0) ?T)"
    unfolding m_iff by (simp add: fixture_simps)
  have s_low: "outline_south \<in> set (filter (outline_selected rect_intersects cells 1 2 6 0 0) ?T)"
    using s_iff by (simp add: fixture_simps)
  have n_low: "outline_north \<in> set (filter (outline_selected rect_intersects cells 1 1 6 0 0) ?T)"
    using n_both [THEN conjunct1] by (simp add: fixture_simps)
  have n_up: "outline_north \<in> set (filter (outline_selected rect_intersects cells 1 0 6 0 0) ?T)"
    unfolding n_both [THEN conjunct2, rule_format, OF y0] by (simp add: fixture_simps)
  from gm em cm m_left m_right gs es cs s_up s_low gn en cn n_up n_low
  show ?thesis by (simp only: one_add_one simp_thms)
qed

text \<open>
  The claim asks for exactly one of the two tiles. An outline whose right side is the whole
  edge between the tiles \<open>(1, 1)\<close> and \<open>(2, 1)\<close> of level 6 also touches the excluded
  border \<open>y = -512\<close> of tile \<open>(1, 1)\<close>: neither of the two tiles returns it.
\<close>

theorem shared_border_outline_in_neither_tile:
  "rect_intersects (rectangle 400 512 (-512) (-256)) (vertical_shared_edge 1 1 6)
   \<and> get_mapobject_outlines_within_tile rect_intersects [outline_edge] cells 1 1 6 0 0 = []
   \<and> get_mapobject_outlines_within_tile rect_intersects [outline_edge] cells 2 1 6 0 0 = []"
  by (simp add: fixture_simps)

subsection \<open>The tile extent\<close>

text \<open>
  Claim C6. Called for a pyramid with \<open>maxzoom_level = 5\<close>, the estimator samples at
  level \<open>z = 5\<close> tiles of extent \<open>256 * 2 ** (6 - 5) = 512\<close>, not \<open>256 * 2 ** (5 - 5) = 256\<close>:
  the tile \<open>(1, 1)\<close> has its corners at \<open>512\<close> and \<open>1024\<close>. The filter of the tile
  query takes the same constant 6 for every pyramid.
\<close>

theorem tile_extent_ignores_maxzoom_level:
  "tilesize 5 = 512 \<and> tilesize 5 \<noteq> 256 * 2 powi (5 - 5)
   \<and> sample_tile 5 1 1 = LINESTRING [(1024, -512), (512, -512), (512, -1024), (1024, -1024), (1024, -512)]
   \<and> tile_size 5 = 512"
  by (simp add: tilesize_def sample_tile_def tile_size_def max_zoom_def)

subsection \<open>The zoom estimator\<close>

text \<open>
  Claim C5, as the code has it. If at every level \<open>0, \<dots>, m\<close> at least one sampled tile
  returned a sum, and at some level the average, truncated to an integer, is at most the
  limit, then the estimator returns a level, and it is the least level of \<open>0, \<dots>, m\<close>
  whose truncated average is at most the limit.
\<close>

theorem min_poly_zoom_is_least_qualifying_level:
  assumes sampled: "\<forall>z \<in> {0..m}. n_points_in_tile_samples isect table ids z (rand_xs z) (rand_ys z) \<noteq> []"
    and qualifies: "\<exists>z \<in> {0..m}. truncated_average
        (n_points_in_tile_samples isect table ids z (rand_xs z) (rand_ys z)) \<le> limit"
  shows "\<exists>z. calculate_min_poly_zoom isect table rand_xs rand_ys m ids limit = Inr z \<and>
      z \<in> {0..m} \<and>
      truncated_average (n_points_in_tile_samples isect table ids z (rand_xs z) (rand_ys z)) \<le> limit \<and>
      (\<forall>z' \<in> {0..m}. truncated_average
          (n_points_in_tile_samples isect table ids z' (rand_xs z') (rand_ys z')) \<le> limit
        \<longrightarrow> z \<le> z')"
proof -
  let ?P = "\<lambda>z. truncated_average
        (n_points_in_tile_samples isect table ids z (rand_xs z) (rand_ys z)) \<le> limit"
  from qualifies obtain z0 where "z0 \<in> set (rev [0..m])" "?P z0" by auto
  from py_min_filter [of z0 "rev [0..m]" ?P, OF this]
  show ?thesis
    by (simp add: calculate_min_poly_zoom_all_levels_sampled [OF sampled])
qed

theorem min_poly_zoom_is_least_qualifying_level_witness:
  "n_points_in_tile_samples bbox_intersects [outline_west, outline_east] [10, 20] 0
       (draws_x 0) (draws_y 0) = [11, 11]
   \<and> n_points_in_tile_samples bbox_intersects [outline_west, outline_east] [10, 20] 1
       (draws_x 1) (draws_y 1) = [5, 6]
   \<and> truncated_average [11, 11] = 11 \<and> truncated_average [5, 6] = 5
   \<and> calculate_min_poly_zoom bbox_intersects [outline_west, outline_east] draws_x draws_y 1
        [10, 20] 5 = Inr 1
   \<and> calculate_min_poly_zoom bbox_intersects [outline_west, outline_east] draws_x draws_y 1
        [10, 20] 11 = Inr 0"
proof -
  let ?S = "\<lambda>z. n_points_in_tile_samples bbox_intersects [outline_west, outline_east]
      [10, 20] z (draws_x z) (draws_y z)"
  have lv: "\<And>z::int. z \<in> {0..1} \<Longrightarrow> z = 0 \<or> z = 1" by auto
  have s: "\<forall>z \<in> {0..1}. ?S z \<noteq> []"
    using samples_level_0 samples_level_1 lv by fastforce
  have t0: "truncated_average (?S 0) = 11" and t1: "truncated_average (?S 1) = 5"
    by (simp_all add: samples_level_0 samples_level_1 truncated_average_def)
  have q5: "\<exists>z \<in> {0..1}. truncated_average (?S z) \<le> 5"
    by (rule bexI [of _ 1]) (simp_all add: t1)
  have q11: "\<exists>z \<in> {0..1}. truncated_average (?S z) \<le> 11"
    by (rule bexI [of _ 0]) (simp_all add: t0)
  from min_poly_zoom_is_least_qualifying_level [OF s q5]
  obtain z where z: "calculate_min_poly_zoom bbox_intersects [outline_west, outline_east]
      draws_x draws_y 1 [10, 20] 5 = Inr z" "z \<in> {0..1}" "truncated_average (?S z) \<le> 5"
    by blast
  from z(2) have "z = 0 \<or> z = 1" by (rule lv)
  with z(3) t0 have z1: "z = 1" by auto
  from min_poly_zoom_is_least_qualifying_level [OF s q11]
  obtain w where w: "calculate_min_poly_zoom bbox_intersects [outline_west, outline_east]
      draws_x draws_y 1 [10, 20] 11 = Inr w" "w \<in> {0..1}"
    "\<forall>z' \<in> {0..1}. truncated_average (?S z') \<le> 11 \<longrightarrow> w \<le> z'"
    by blast
  from w(3) t0 have "w \<le> 0" by simp
  with w(2) have w0: "w = 0" by simp
  from z(1) z1 w(1) w0 show ?thesis
    by (simp add: samples_level_0 samples_level_1 truncated_average_def)
qed

text \<open>
  The claim compares the average itself with the limit. With the samples 5 and 6 at level
  1, the samples 11 and 11 at level 0 and the limit 5, no level has an average of at most 5
  (they are 11/2 and 11), and the estimator returns level 1.
\<close>

theorem min_poly_zoom_truncates_average:
  "calculate_min_poly_zoom bbox_intersects [outline_west, outline_east] draws_x draws_y 1 [10, 20] 5 = Inr 1
   \<and> \<not> exact_average (n_points_in_tile_samples bbox_intersects [outline_west, outline_east] [10, 20] 1
          (draws_x 1) (draws_y 1)) \<le> 5
   \<and> \<not> exact_average (n_points_in_tile_samples bbox_intersects [outline_west, outline_east] [10, 20] 0
          (draws_x 0) (draws_y 0)) \<le> 5"
  by (simp add: calculate_min_poly_zoom_def upto_0_1 samples_level_1 samples_level_0
      level_entry_def py_min_def exact_average_def)

text \<open>
  Claim C9. With \<open>maxzoom_level = 1\<close>, both tiles sampled at level 1 without an
  intersecting outline, and a level 0 whose average 11 is below the limit 3000, the call
  raises \<open>ZeroDivisionError\<close>; the claim has it complete.
\<close>

theorem unsampled_level_raises_zero_division:
  "calculate_min_poly_zoom bbox_intersects [outline_west, outline_east] draws_miss draws_miss 1
       [10, 20] 3000 = Inl ZeroDivisionError
   \<and> n_points_in_tile_samples bbox_intersects [outline_west, outline_east] [10, 20] 1
       (draws_miss 1) (draws_miss 1) = []
   \<and> truncated_average (n_points_in_tile_samples bbox_intersects [outline_west, outline_east]
       [10, 20] 0 (draws_miss 0) (draws_miss 0)) \<le> 3000"
  by (simp add: calculate_min_poly_zoom_def upto_0_1 samples_miss_level_1 samples_miss_level_0
      level_entry_def py_min_def truncated_average_def)

lemma truncated_average_exceeds_iff:
  assumes "samples \<noteq> []"
  shows "limit < truncated_average samples \<longleftrightarrow> of_int limit + 1 \<le> exact_average samples"
proof -
  have n: "0 < int (length samples)" using assms by simp
  have "exact_average samples = of_int (int (sum_list samples)) / of_int (int (length samples))"
    by (simp add: exact_average_def)
  then have f: "\<lfloor>exact_average samples\<rfloor> = truncated_average samples"
    by (simp only: floor_divide_of_int_eq truncated_average_def)
  have "limit < truncated_average samples \<longleftrightarrow> limit + 1 \<le> \<lfloor>exact_average samples\<rfloor>"
    unfolding f by linarith
  also have "\<dots> \<longleftrightarrow> of_int (limit + 1) \<le> exact_average samples"
    by (rule le_floor_iff)
  finally show ?thesis by simp
qed

text \<open>
  Claim C10, as the code has it. If at every level at least one sampled tile returned a
  sum and the entry of every level, the average truncated to an integer, exceeds the limit
  (by lemma \<open>truncated_average_exceeds_iff\<close>: the average is at least the limit plus 1),
  the call raises the \<open>ValueError\<close> of \<open>min\<close> of an empty list.
\<close>

theorem no_qualifying_level_raises:
  assumes sampled: "\<forall>z \<in> {0..m}. n_points_in_tile_samples isect table ids z (rand_xs z) (rand_ys z) \<noteq> []"
    and none: "\<forall>z \<in> {0..m}. limit < truncated_average
        (n_points_in_tile_samples isect table ids z (rand_xs z) (rand_ys z))"
  shows "calculate_min_poly_zoom isect table rand_xs rand_ys m ids limit = Inl ValueError"
proof -
  have "filter (\<lambda>z. truncated_average
        (n_points_in_tile_samples isect table ids z (rand_xs z) (rand_ys z)) \<le> limit) (rev [0..m]) = []"
    using none by (auto simp: filter_empty_conv)
  then show ?thesis
    by (simp add: calculate_min_poly_zoom_all_levels_sampled [OF sampled] py_min_def)
qed

theorem no_qualifying_level_raises_witness:
  "n_points_in_tile_samples bbox_intersects [outline_west, outline_east] [10, 20] 0
       (draws_x 0) (draws_y 0) = [11, 11]
   \<and> n_points_in_tile_samples bbox_intersects [outline_west, outline_east] [10, 20] 1
       (draws_x 1) (draws_y 1) = [5, 6]
   \<and> 4 < truncated_average [11, 11] \<and> 4 < truncated_average [5, 6]
   \<and> calculate_min_poly_zoom bbox_intersects [outline_west, outline_east] draws_x draws_y 1
        [10, 20] 4 = Inl ValueError"
proof -
  let ?S = "\<lambda>z. n_points_in_tile_samples bbox_intersects [outline_west, outline_east]
      [10, 20] z (draws_x z) (draws_y z)"
  have lv: "\<And>z::int. z \<in> {0..1} \<Longrightarrow> z = 0 \<or> z = 1" by auto
  have s: "\<forall>z \<in> {0..1}. ?S z \<noteq> []"
    using samples_level_0 samples_level_1 lv by fastforce
  have n: "\<forall>z \<in> {0..1}. 4 < truncated_average (?S z)"
  proof
    fix z :: int
    assume "z \<in> {0..1}"
    then have "z = 0 \<or> z = 1" by (rule lv)
    then show "4 < truncated_average (?S z)"
      by (auto simp: samples_level_0 samples_level_1 truncated_average_def)
  qed
  from no_qualifying_level_raises [OF s n] show ?thesis
    by (simp add: samples_level_0 samples_level_1 truncated_average_def)
qed

text \<open>
  The claim has the call raise whenever every average exceeds the limit. With the samples
  5 and 6 at level 1, the samples 11 and 11 at level 0 and the limit 5, both averages
  (11/2 and 11) exceed the limit, and the call returns level 1.
\<close>

theorem average_above_limit_still_qualifies:
  "n_points_in_tile_samples bbox_intersects [outline_west, outline_east] [10, 20] 1
       (draws_x 1) (draws_y 1) = [5, 6]
   \<and> n_points_in_tile_samples bbox_intersects [outline_west, outline_east] [10, 20] 0
       (draws_x 0) (draws_y 0) = [11, 11]
   \<and> 5 < exact_average [5, 6] \<and> 5 < exact_average [11, 11]
   \<and> calculate_min_poly_zoom bbox_intersects [outline_west, outline_east] draws_x draws_y 1
        [10, 20] 5 = Inr 1"
  by (simp add: calculate_min_poly_zoom_def upto_0_1 samples_level_1 samples_level_0
      level_entry_def py_min_def exact_average_def)


section \<open>Properties of the online statistics\<close>

subsection \<open>Floats\<close>

lemma finite_float: "is_finite a \<Longrightarrow> a = Finite (the_real a)"
  by (cases a) simp_all

lemma positive_is_finite: "is_positive a \<Longrightarrow> is_finite a"
  by (cases a) simp_all

lemma float_add_finite_assoc:
  "float_add (float_add a (Finite x)) (Finite y) = float_add a (Finite (x + y))"
  by (cases a) simp_all

lemma float_add_zero: "float_add a (Finite 0) = a"
  by (cases a) simp_all

lemma float_log10_positive: "is_positive a \<Longrightarrow> float_log10 a = Finite (log 10 (the_real a))"
  by (cases a) simp_all

lemma float_insert_same: "float_insert x (replicate k x) = replicate (Suc k) x"
  by (cases x; induction k) simp_all

lemma float_sort_replicate: "float_sort (replicate k x) = replicate k x"
  unfolding float_sort_def
  by (induction k) (simp_all add: float_insert_same del: replicate.simps(2))

subsection \<open>Arrays and percentiles\<close>

lemma broadcast_shapes_rev_refl: "broadcast_shapes_rev xs xs = Some xs"
  by (induction xs) simp_all

lemma broadcast_shapes_refl: "broadcast_shapes a a = Some a"
  by (simp add: broadcast_shapes_def broadcast_shapes_rev_refl)

lemma indices_length: "idx \<in> set (indices dims) \<Longrightarrow> length idx = length dims"
  by (induction dims arbitrary: idx) auto

lemma indices_bound:
  "idx \<in> set (indices dims) \<Longrightarrow> k < length dims \<Longrightarrow> idx ! k < dims ! k"
proof (induction dims arbitrary: idx k)
  case Nil
  then show ?case by simp
next
  case (Cons d ds)
  then obtain i rest where "idx = i # rest" "i < d" "rest \<in> set (indices ds)" by auto
  with Cons show ?case by (cases k) auto
qed

lemma unit_axes_index:
  assumes "idx \<in> set (indices dims)"
  shows "map2 (\<lambda>d i. if d = 1 then 0 else i) dims idx = idx"
proof (rule nth_equalityI)
  show "length (map2 (\<lambda>d i. if d = 1 then 0 else i) dims idx) = length idx"
    using indices_length [OF assms] by simp
next
  fix k assume "k < length (map2 (\<lambda>d i. if d = 1 then 0 else i) dims idx)"
  then have k: "k < length dims" "k < length idx" by simp_all
  from indices_bound [OF assms k(1)] have "dims ! k = 1 \<Longrightarrow> idx ! k = 0" by simp
  with k show "map2 (\<lambda>d i. if d = 1 then 0 else i) dims idx ! k = idx ! k" by simp
qed

lemma ravel_Cons:
  "length idx = length ds \<Longrightarrow>
   foldl (\<lambda>acc (d, i). acc * d + i) acc (zip ds idx) = acc * prod_list ds + ravel ds idx"
  unfolding ravel_def
proof (induction ds idx arbitrary: acc rule: list_induct2')
  case (4 d ds i idx)
  from 4(2) have l: "length idx = length ds" by simp
  show ?case
    using "4.IH" [OF l, of "acc * d + i"] "4.IH" [OF l, of "0 * d + i"]
    by (simp add: algebra_simps)
qed simp_all

lemma shifted_ranges:
  "concat (map (\<lambda>i. map (\<lambda>k. i * P + k) [0..<P]) [0..<d]) = [0..<d * P]"
proof (induction d)
  case 0
  then show ?case by simp
next
  case (Suc d)
  have m: "map (\<lambda>k. d * P + k) [0..<P] = [d * P..<d * P + P]"
    using map_add_upt [of "d * P" P] by (simp add: add.commute)
  have u: "[0..<d * P + P] = [0..<d * P] @ [d * P..<d * P + P]"
    by (rule upt_add_eq_append) simp
  have "concat (map (\<lambda>i. map (\<lambda>k. i * P + k) [0..<P]) [0..<Suc d]) =
      concat (map (\<lambda>i. map (\<lambda>k. i * P + k) [0..<P]) [0..<d]) @ map (\<lambda>k. d * P + k) [0..<P]"
    by simp
  also have "\<dots> = [0..<d * P + P]" unfolding Suc m u ..
  also have "d * P + P = Suc d * P" by simp
  finally show ?case .
qed

lemma ravel_indices: "map (ravel dims) (indices dims) = [0..<prod_list dims]"
proof (induction dims)
  case Nil
  then show ?case by (simp add: ravel_def)
next
  case (Cons d ds)
  have "map (ravel (d # ds)) (map (Cons i) (indices ds)) =
      map (\<lambda>k. i * prod_list ds + k) [0..<prod_list ds]" for i
  proof -
    have "ravel (d # ds) (i # idx) = i * prod_list ds + ravel ds idx"
      if "idx \<in> set (indices ds)" for idx
      using ravel_Cons [OF indices_length [OF that], of i] by (simp add: ravel_def)
    then have "map (ravel (d # ds)) (map (Cons i) (indices ds)) =
        map (\<lambda>k. i * prod_list ds + k) (map (ravel ds) (indices ds))"
      by simp
    then show ?thesis by (simp only: Cons.IH)
  qed
  then show ?case
    by (simp add: map_concat comp_def shifted_ranges)
qed

lemma broadcast_to_own_shape:
  assumes "length (data a) = prod_list (shape a)"
  shows "broadcast_to (shape a) a = data a"
proof -
  have eq: "data a ! ravel (shape a) (map2 (\<lambda>d i. if d = 1 then 0 else i) (shape a)
        (drop (length (shape a) - length (shape a)) idx)) = data a ! ravel (shape a) idx"
    if "idx \<in> set (indices (shape a))" for idx
    using unit_axes_index [OF that] by (simp only: diff_self_eq_0 drop_0)
  have "broadcast_to (shape a) a = map (\<lambda>idx. data a ! ravel (shape a) idx) (indices (shape a))"
    unfolding broadcast_to_def by (rule map_cong [OF refl eq])
  also have "\<dots> = map (\<lambda>k. data a ! k) (map (ravel (shape a)) (indices (shape a)))"
    by simp
  also have "\<dots> = map (\<lambda>k. data a ! k) [0..<length (data a)]"
    by (simp only: ravel_indices assms)
  also have "\<dots> = data a" by (rule map_nth)
  finally show ?thesis .
qed

text \<open>
  For two arrays of the same shape the general rule of \<open>np_binop\<close> gives what its first
  branch gives: broadcasting an array to its own shape leaves its elements as they are.
\<close>

lemma np_binop_equal_shapes:
  assumes "shape a = shape b" and "length (data a) = prod_list (shape a)"
    and "length (data b) = prod_list (shape b)"
  shows "(case broadcast_shapes (shape a) (shape b) of
            None \<Rightarrow> Inl ValueError
          | Some s \<Rightarrow> Inr \<lparr> shape = s,
                            data = map2 f (broadcast_to s a) (broadcast_to s b) \<rparr>) =
         np_binop f a b"
proof -
  have "broadcast_to (shape b) a = data a"
    using broadcast_to_own_shape [OF assms(2)] assms(1) by simp
  moreover have "broadcast_to (shape b) b = data b"
    by (rule broadcast_to_own_shape [OF assms(3)])
  ultimately show ?thesis
    using assms(1) by (simp add: np_binop_def broadcast_shapes_refl)
qed

lemma np_linspace_in_range:
  "list_all (\<lambda>p. 0 \<le> p \<and> p \<le> 100) (np_linspace 0 100 num)"
proof -
  have "real i * (100 / real (num - 1)) \<le> 100" if "i < num" for i
  proof (cases "num - 1 = 0")
    case True
    then show ?thesis by simp
  next
    case False
    then have "0 < real (num - 1)" by simp
    moreover from that have "real i \<le> real (num - 1)" by simp
    ultimately show ?thesis by (simp add: field_simps)
  qed
  then show ?thesis by (auto simp: np_linspace_def list_all_iff)
qed

lemma new_statistics_q_in_range:
  "list_all (\<lambda>p. 0 \<le> p \<and> p \<le> 100) (self_q (new_statistics dims decimals memory))"
  by (simp add: new_statistics_def Let_def np_linspace_in_range)

lemma np_percentile_succeeds:
  assumes "list_all (\<lambda>p. 0 \<le> p \<and> p \<le> 100) qs" and "data a \<noteq> []"
  shows "\<exists>p. np_percentile a qs = Inr p \<and> length p = length qs"
  using assms by (simp add: np_percentile_def)

lemma update_not_broadcastable:
  assumes "np_percentile img (self_q s) = Inr p"
    and "broadcast_shapes (shape img) (shape (self_mean s)) = None"
  shows "update img log_transform s =
     (Inl ValueError, s \<lparr> self_percentiles := map2 float_add (self_percentiles s) p,
                           self_n := self_n s + 1 \<rparr>)"
proof -
  from assms(2) have ne: "shape img \<noteq> shape (self_mean s)"
    using broadcast_shapes_refl by force
  have "np_binop float_sub (if log_transform then np_log10 img else img) (self_mean s) =
      Inl ValueError"
    using ne assms(2) by (simp add: np_binop_def np_log10_def)
  with assms(1) show ?thesis by (simp add: update_def Let_def)
qed

lemma percentile_of_replicate:
  assumes "0 \<le> p" "p \<le> 100" "0 < N"
  shows "percentile_of (replicate N (Finite v)) p = Finite v"
proof -
  define idx where "idx = p / 100 * real (N - 1)"
  define below where "below = nat \<lfloor>idx\<rfloor>"
  define above where "above = min (below + 1) (N - 1)"
  define w where "w = idx - real below"
  have "p / 100 \<le> 1" using assms by simp
  then have "idx \<le> 1 * real (N - 1)" unfolding idx_def
    by (intro mult_right_mono) simp_all
  then have "idx \<le> real (N - 1)" by simp
  then have "\<lfloor>idx\<rfloor> \<le> int (N - 1)" by (simp add: floor_le_iff)
  then have "below \<le> N - 1" by (simp add: below_def)
  with assms(3) have b: "below < N" by simp
  have a: "above < N" using assms(3) by (simp add: above_def)
  have "percentile_of (replicate N (Finite v)) p =
      float_add (float_mul (replicate N (Finite v) ! below) (Finite (1 - w)))
        (float_mul (replicate N (Finite v) ! above) (Finite w))"
    by (simp add: percentile_of_def Let_def idx_def below_def above_def w_def)
  also have "\<dots> = Finite (v * (1 - w) + v * w)" using a b by simp
  also have "v * (1 - w) + v * w = v" by (simp add: algebra_simps)
  finally show ?thesis .
qed

lemma np_percentile_constant:
  assumes "list_all (\<lambda>p. 0 \<le> p \<and> p \<le> 100) qs" "0 < prod_list dims"
  shows "np_percentile (constant_image dims v) qs = Inr (map (\<lambda>p. Finite v) qs)"
proof -
  have "map (percentile_of (replicate (prod_list dims) (Finite v))) qs = map (\<lambda>p. Finite v) qs"
    using assms by (auto simp: list_all_iff percentile_of_replicate)
  with assms show ?thesis
    by (simp add: np_percentile_def constant_image_def float_sort_replicate)
qed

subsection \<open>One call of \<open>update\<close>\<close>

lemma update_same_shape:
  assumes "np_percentile img (self_q s) = Inr p"
    and "shape img = shape (self_mean s)" and "shape (self_M2 s) = shape (self_mean s)"
  shows "update img log_transform s =
     (Inr (),
      s \<lparr> self_percentiles := map2 float_add (self_percentiles s) p,
          self_n := self_n s + 1,
          self_mean := \<lparr> shape = shape (self_mean s),
            data = map2 float_add (data (self_mean s))
              (map (\<lambda>x. float_div_int x (self_n s + 1))
                (map2 float_sub (data (if log_transform then np_log10 img else img))
                   (data (self_mean s)))) \<rparr>,
          self_M2 := \<lparr> shape = shape (self_mean s),
            data = map2 float_add (data (self_M2 s))
              (map2 float_mul
                (map2 float_sub (data (if log_transform then np_log10 img else img))
                   (data (self_mean s)))
                (map2 float_sub (data (if log_transform then np_log10 img else img))
                   (map2 float_add (data (self_mean s))
                     (map (\<lambda>x. float_div_int x (self_n s + 1))
                       (map2 float_sub (data (if log_transform then np_log10 img else img))
                          (data (self_mean s))))))) \<rparr> \<rparr>)"
  using assms
  by (simp add: update_def Let_def np_binop_def np_div_scalar_def np_log10_def)

lemma length_np_linspace: "length (np_linspace start stop num) = num"
  by (simp add: np_linspace_def)

lemma new_statistics_well_shaped: "well_shaped dims (new_statistics dims decimals memory)"
  by (simp add: well_shaped_def image_of_shape_def new_statistics_def Let_def np_zeros_def
      np_linspace_in_range length_np_linspace)

lemma update_all_append:
  "update_all lt (imgs @ [img]) s =
     (case update_all lt imgs s of
        (Inl e, s') \<Rightarrow> (Inl e, s')
      | (Inr u, s') \<Rightarrow> update img lt s')"
  by (induction imgs arbitrary: s) (auto split: prod.splits sum.splits)

lemma update_all_single: "update_all lt [img] s = update img lt s"
  by (cases "update img lt s") (auto split: sum.splits)

lemma update_well_shaped:
  assumes ws: "well_shaped dims s" and im: "image_of_shape dims img" and pos: "0 < prod_list dims"
  shows "fst (update img lt s) = Inr ()"
    and "well_shaped dims (snd (update img lt s))"
    and "self_n (snd (update img lt s)) = self_n s + 1"
    and "self_q (snd (update img lt s)) = self_q s"
    and "self_keys (snd (update img lt s)) = self_keys s"
    and "\<And>p. np_percentile img (self_q s) = Inr p \<Longrightarrow>
           self_percentiles (snd (update img lt s)) = map2 float_add (self_percentiles s) p"
    and "\<And>j. j < prod_list dims \<Longrightarrow>
           data (self_mean (snd (update img lt s))) ! j =
             float_add (data (self_mean s) ! j)
               (float_div_int (float_sub (data (if lt then np_log10 img else img) ! j)
                  (data (self_mean s) ! j)) (self_n s + 1))"
    and "\<And>j. j < prod_list dims \<Longrightarrow>
           data (self_M2 (snd (update img lt s))) ! j =
             float_add (data (self_M2 s) ! j)
               (float_mul (float_sub (data (if lt then np_log10 img else img) ! j)
                    (data (self_mean s) ! j))
                  (float_sub (data (if lt then np_log10 img else img) ! j)
                    (data (self_mean (snd (update img lt s))) ! j)))"
proof -
  from im pos have ne: "data img \<noteq> []" by (auto simp: image_of_shape_def)
  from ws have q: "list_all (\<lambda>p. 0 \<le> p \<and> p \<le> 100) (self_q s)" by (simp add: well_shaped_def)
  from np_percentile_succeeds [OF q ne] obtain p0
    where p0: "np_percentile img (self_q s) = Inr p0" "length p0 = length (self_q s)" by blast
  have sh: "shape img = shape (self_mean s)" "shape (self_M2 s) = shape (self_mean s)"
    using ws im by (simp_all add: well_shaped_def image_of_shape_def)
  note u = update_same_shape [OF p0(1) sh, of lt]
  have len: "length (data img) = prod_list dims" "length (data (self_mean s)) = prod_list dims"
    "length (data (self_M2 s)) = prod_list dims" "shape (self_mean s) = dims"
    using ws im by (simp_all add: well_shaped_def image_of_shape_def)
  have lenl: "length (data (if lt then np_log10 img else img)) = prod_list dims"
    using len by (simp add: np_log10_def)
  show "fst (update img lt s) = Inr ()" by (simp add: u)
  show "well_shaped dims (snd (update img lt s))"
    using ws len lenl p0(2) by (simp add: u well_shaped_def image_of_shape_def)
  show "self_n (snd (update img lt s)) = self_n s + 1" by (simp add: u)
  show "self_q (snd (update img lt s)) = self_q s" by (simp add: u)
  show "self_keys (snd (update img lt s)) = self_keys s" by (simp add: u)
  show "self_percentiles (snd (update img lt s)) = map2 float_add (self_percentiles s) p"
    if "np_percentile img (self_q s) = Inr p" for p
    using that p0(1) by (simp add: u)
  show "data (self_mean (snd (update img lt s))) ! j =
             float_add (data (self_mean s) ! j)
               (float_div_int (float_sub (data (if lt then np_log10 img else img) ! j)
                  (data (self_mean s) ! j)) (self_n s + 1))"
    if "j < prod_list dims" for j
    using that len lenl by (simp add: u)
  show "data (self_M2 (snd (update img lt s))) ! j =
             float_add (data (self_M2 s) ! j)
               (float_mul (float_sub (data (if lt then np_log10 img else img) ! j)
                    (data (self_mean s) ! j))
                  (float_sub (data (if lt then np_log10 img else img) ! j)
                    (data (self_mean (snd (update img lt s))) ! j)))"
    if "j < prod_list dims" for j
    using that len lenl by (simp add: u)
qed

lemma update_all_counts:
  assumes pos: "0 < prod_list dims"
  shows "well_shaped dims s \<Longrightarrow> \<forall>img \<in> set imgs. image_of_shape dims img \<Longrightarrow>
     fst (update_all lt imgs s) = Inr ()
   \<and> well_shaped dims (snd (update_all lt imgs s))
   \<and> self_n (snd (update_all lt imgs s)) = self_n s + length imgs
   \<and> self_keys (snd (update_all lt imgs s)) = self_keys s"
proof (induction imgs arbitrary: s)
  case Nil
  then show ?case by simp
next
  case (Cons img imgs)
  from Cons.prems have im: "image_of_shape dims img"
    and ims: "\<forall>img \<in> set imgs. image_of_shape dims img" by simp_all
  note U = update_well_shaped [OF Cons.prems(1) im pos, where lt = lt]
  have step: "update_all lt (img # imgs) s = update_all lt imgs (snd (update img lt s))"
    using U(1) by (cases "update img lt s") (auto split: sum.splits)
  from Cons.IH [OF U(2) ims] show ?case
    unfolding step by (simp add: U(3) U(5))
qed

lemma nth_finite:
  "list_all is_finite xs \<Longrightarrow> j < length xs \<Longrightarrow> xs ! j = Finite (the_real (xs ! j))"
  by (simp add: list_all_length finite_float)

lemma update_finite_step:
  assumes ws: "well_shaped dims s" and im: "image_of_shape dims img" and pos: "0 < prod_list dims"
    and j: "j < prod_list dims"
    and x: "data (if lt then np_log10 img else img) ! j = Finite x"
    and m: "data (self_mean s) ! j = Finite m"
    and q: "data (self_M2 s) ! j = Finite q"
  shows "data (self_mean (snd (update img lt s))) ! j =
           Finite (m + (x - m) / real (self_n s + 1))"
    and "data (self_M2 (snd (update img lt s))) ! j =
           Finite (q + (x - m) * (x - (m + (x - m) / real (self_n s + 1))))"
proof -
  show a: "data (self_mean (snd (update img lt s))) ! j =
           Finite (m + (x - m) / real (self_n s + 1))"
    unfolding update_well_shaped(7) [OF ws im pos j] x m
    by (simp add: float_sub_def)
  show "data (self_M2 (snd (update img lt s))) ! j =
           Finite (q + (x - m) * (x - (m + (x - m) / real (self_n s + 1))))"
    unfolding update_well_shaped(8) [OF ws im pos j] a x m q
    by (simp add: float_sub_def)
qed

lemma constant_image_of_shape: "image_of_shape dims (constant_image dims v)"
  by (simp add: image_of_shape_def constant_image_def)

lemma map2_add_const:
  "length xs = length qs \<Longrightarrow>
   map2 float_add xs (map (\<lambda>p. Finite v) qs) = map (\<lambda>x. float_add x (Finite v)) xs"
  by (induction xs qs rule: list_induct2) simp_all

lemma update_constant_percentiles:
  assumes ws: "well_shaped dims s" and pos: "0 < prod_list dims"
  shows "self_percentiles (snd (update (constant_image dims v) lt s)) =
           map (\<lambda>x. float_add x (Finite v)) (self_percentiles s)"
proof -
  from ws have q: "list_all (\<lambda>p. 0 \<le> p \<and> p \<le> 100) (self_q s)"
    and l: "length (self_percentiles s) = length (self_q s)" by (simp_all add: well_shaped_def)
  show ?thesis
    unfolding update_well_shaped(6) [OF ws constant_image_of_shape pos
        np_percentile_constant [OF q pos]]
    by (rule map2_add_const [OF l])
qed

lemma update_all_constants:
  assumes pos: "0 < prod_list dims"
  shows "well_shaped dims s \<Longrightarrow>
     fst (update_all lt (map (constant_image dims) vs) s) = Inr ()
   \<and> well_shaped dims (snd (update_all lt (map (constant_image dims) vs) s))
   \<and> self_n (snd (update_all lt (map (constant_image dims) vs) s)) = self_n s + length vs
   \<and> self_keys (snd (update_all lt (map (constant_image dims) vs) s)) = self_keys s
   \<and> self_percentiles (snd (update_all lt (map (constant_image dims) vs) s)) =
       map (\<lambda>x. float_add x (Finite (sum_list vs))) (self_percentiles s)"
proof (induction vs arbitrary: s)
  case Nil
  then show ?case by (simp add: float_add_zero)
next
  case (Cons v vs)
  let ?c = "constant_image dims v"
  let ?t = "snd (update ?c lt s)"
  note U = update_well_shaped [OF Cons.prems constant_image_of_shape [of dims v] pos, where lt = lt]
  have step: "update_all lt (map (constant_image dims) (v # vs)) s =
      update_all lt (map (constant_image dims) vs) ?t"
    using U(1) by (cases "update ?c lt s") (auto split: sum.splits)
  from Cons.IH [OF U(2)] show ?case
    unfolding step
    by (simp add: U(3) U(5) update_constant_percentiles [OF Cons.prems pos]
        float_add_finite_assoc comp_def algebra_simps)
qed

subsection \<open>Welford's recurrence\<close>

lemma welford_mean_step:
  assumes "real k * m = S"
  shows "real (k + 1) * (m + (x - m) / real (k + 1)) = S + x"
proof -
  have "real (k + 1) * (m + (x - m) / real (k + 1)) = real (k + 1) * m + (x - m)"
    by (simp add: field_simps)
  also have "\<dots> = real k * m + x" by (simp add: algebra_simps)
  finally show ?thesis using assms by simp
qed

lemma welford_M2_step:
  assumes "M = Q - real k * m\<^sup>2"
  shows "M + (x - m) * (x - (m + (x - m) / real (k + 1))) =
         (Q + x\<^sup>2) - real (k + 1) * (m + (x - m) / real (k + 1))\<^sup>2"
proof -
  define d where "d = x - m"
  define c where "c = real (k + 1)"
  have c: "c \<noteq> 0" "real k = c - 1" by (simp_all add: c_def)
  have x: "x = m + d" by (simp add: d_def)
  have "(x - m) * (x - (m + (x - m) / c)) = d * (d - d / c)" by (simp add: x)
  also have "\<dots> = d\<^sup>2 - d\<^sup>2 / c" by (simp add: power2_eq_square algebra_simps)
  finally have l: "(x - m) * (x - (m + (x - m) / c)) = d\<^sup>2 - d\<^sup>2 / c" .
  have "c * (m + d / c)\<^sup>2 = c * m\<^sup>2 + 2 * m * d + d\<^sup>2 / c"
    using c(1) by (simp add: power2_eq_square field_simps)
  then have r: "(Q + x\<^sup>2) - c * (m + (x - m) / c)\<^sup>2 = Q - (c - 1) * m\<^sup>2 + d\<^sup>2 - d\<^sup>2 / c"
    by (simp add: x power2_eq_square algebra_simps)
  show ?thesis
    unfolding assms c_def [symmetric] l r c(2) by simp
qed

lemma sum_squared_deviations:
  "sum_list (map (\<lambda>x. (x - c)\<^sup>2) xs) =
     sum_list (map (\<lambda>x. x\<^sup>2) xs) - 2 * c * sum_list xs + real (length xs) * c\<^sup>2"
  by (induction xs) (simp_all add: power2_eq_square algebra_simps)

lemma two_pass_from_sums:
  assumes "xs \<noteq> []" and "real (length xs) * m = sum_list xs"
  shows "m = two_pass_mean xs"
    and "sum_list (map (\<lambda>x. x\<^sup>2) xs) - real (length xs) * m\<^sup>2 =
         sum_list (map (\<lambda>x. (x - two_pass_mean xs)\<^sup>2) xs)"
proof -
  from assms(1) have n: "real (length xs) \<noteq> 0" by simp
  with assms(2) show m: "m = two_pass_mean xs"
    by (simp add: two_pass_mean_def field_simps)
  have "sum_list (map (\<lambda>x. (x - m)\<^sup>2) xs) =
     sum_list (map (\<lambda>x. x\<^sup>2) xs) - 2 * m * (real (length xs) * m) + real (length xs) * m\<^sup>2"
    by (simp add: sum_squared_deviations assms(2))
  also have "\<dots> = sum_list (map (\<lambda>x. x\<^sup>2) xs) - real (length xs) * m\<^sup>2"
    by (simp add: power2_eq_square algebra_simps)
  finally show "sum_list (map (\<lambda>x. x\<^sup>2) xs) - real (length xs) * m\<^sup>2 =
         sum_list (map (\<lambda>x. (x - two_pass_mean xs)\<^sup>2) xs)"
    using m by simp
qed

lemma update_all_welford:
  assumes pos: "0 < prod_list dims"
    and im: "\<forall>img \<in> set imgs. image_of_shape dims img
               \<and> list_all is_finite (data (if lt then np_log10 img else img))"
  shows "fst (update_all lt imgs (new_statistics dims decimals memory)) = Inr ()
    \<and> well_shaped dims (snd (update_all lt imgs (new_statistics dims decimals memory)))
    \<and> self_n (snd (update_all lt imgs (new_statistics dims decimals memory))) = length imgs
    \<and> (\<forall>j < prod_list dims.
          is_finite (data (self_mean (snd (update_all lt imgs
              (new_statistics dims decimals memory)))) ! j)
        \<and> real (length imgs) * the_real (data (self_mean (snd (update_all lt imgs
              (new_statistics dims decimals memory)))) ! j) =
            sum_list (pixel_series (map (\<lambda>img. if lt then np_log10 img else img) imgs) j)
        \<and> is_finite (data (self_M2 (snd (update_all lt imgs
              (new_statistics dims decimals memory)))) ! j)
        \<and> the_real (data (self_M2 (snd (update_all lt imgs
              (new_statistics dims decimals memory)))) ! j) =
            sum_list (map (\<lambda>x. x\<^sup>2)
              (pixel_series (map (\<lambda>img. if lt then np_log10 img else img) imgs) j))
            - real (length imgs) * (the_real (data (self_mean (snd (update_all lt imgs
                (new_statistics dims decimals memory)))) ! j))\<^sup>2)"
  using im
proof (induction imgs rule: rev_induct)
  case Nil
  show ?case
    by (simp add: new_statistics_well_shaped pixel_series_def)
      (simp add: new_statistics_def Let_def np_zeros_def)
next
  case (snoc img imgs)
  let ?start = "new_statistics dims decimals memory"
  let ?st = "snd (update_all lt imgs ?start)"
  let ?tr = "\<lambda>img. if lt then np_log10 img else img"
  from snoc.prems have im': "\<forall>img \<in> set imgs. image_of_shape dims img
               \<and> list_all is_finite (data (if lt then np_log10 img else img))"
    and img: "image_of_shape dims img" and fin: "list_all is_finite (data (?tr img))"
    by simp_all
  note IH = snoc.IH [OF im']
  from IH have ok: "fst (update_all lt imgs ?start) = Inr ()" and ws: "well_shaped dims ?st"
    and n: "self_n ?st = length imgs" by simp_all
  have step: "update_all lt (imgs @ [img]) ?start = update img lt ?st"
    using ok by (cases "update_all lt imgs ?start") (auto simp: update_all_append split: sum.splits)
  note U = update_well_shaped [OF ws img pos, where lt = lt]
  have lenl: "length (data (?tr img)) = prod_list dims"
    using img by (simp add: image_of_shape_def np_log10_def)
  show ?case
  proof (intro conjI allI impI)
    show "fst (update_all lt (imgs @ [img]) ?start) = Inr ()" by (simp add: step U(1))
    show "well_shaped dims (snd (update_all lt (imgs @ [img]) ?start))" by (simp add: step U(2))
    show "self_n (snd (update_all lt (imgs @ [img]) ?start)) = length (imgs @ [img])"
      by (simp add: step U(3) n)
  next
    fix j assume j: "j < prod_list dims"
    define x where "x = the_real (data (?tr img) ! j)"
    define m where "m = the_real (data (self_mean ?st) ! j)"
    define q where "q = the_real (data (self_M2 ?st) ! j)"
    have xf: "data (?tr img) ! j = Finite x"
      unfolding x_def using nth_finite [OF fin] j lenl by simp
    from IH j have fm: "is_finite (data (self_mean ?st) ! j)"
      and fq: "is_finite (data (self_M2 ?st) ! j)" by blast+
    have mf: "data (self_mean ?st) ! j = Finite m"
      unfolding m_def by (rule finite_float [OF fm])
    have qf: "data (self_M2 ?st) ! j = Finite q"
      unfolding q_def by (rule finite_float [OF fq])
    from IH j have a: "real (length imgs) * m = sum_list (pixel_series (map ?tr imgs) j)"
      and b: "q = sum_list (map (\<lambda>x. x\<^sup>2) (pixel_series (map ?tr imgs) j))
            - real (length imgs) * m\<^sup>2"
      unfolding m_def q_def by blast+
    note F = update_finite_step [OF ws img pos j xf mf qf, unfolded n]
    have m': "data (self_mean (snd (update_all lt (imgs @ [img]) ?start))) ! j =
        Finite (m + (x - m) / real (length imgs + 1))"
      unfolding step by (rule F(1))
    have q': "data (self_M2 (snd (update_all lt (imgs @ [img]) ?start))) ! j =
        Finite (q + (x - m) * (x - (m + (x - m) / real (length imgs + 1))))"
      unfolding step by (rule F(2))
    have ser: "pixel_series (map ?tr (imgs @ [img])) j = pixel_series (map ?tr imgs) j @ [x]"
      by (simp add: pixel_series_def x_def)
    show "is_finite (data (self_mean (snd (update_all lt (imgs @ [img]) ?start))) ! j)"
      unfolding m' by simp
    show "is_finite (data (self_M2 (snd (update_all lt (imgs @ [img]) ?start))) ! j)"
      unfolding q' by simp
    show "real (length (imgs @ [img])) *
        the_real (data (self_mean (snd (update_all lt (imgs @ [img]) ?start))) ! j) =
        sum_list (pixel_series (map ?tr (imgs @ [img])) j)"
      unfolding m' ser using welford_mean_step [OF a, of x] by simp
    have "q + (x - m) * (x - (m + (x - m) / real (length imgs + 1))) =
        (sum_list (map (\<lambda>x. x\<^sup>2) (pixel_series (map ?tr imgs) j)) + x\<^sup>2)
        - real (length imgs + 1) * (m + (x - m) / real (length imgs + 1))\<^sup>2"
      by (rule welford_M2_step [OF b])
    then show "the_real (data (self_M2 (snd (update_all lt (imgs @ [img]) ?start))) ! j) =
        sum_list (map (\<lambda>x. x\<^sup>2) (pixel_series (map ?tr (imgs @ [img])) j))
        - real (length (imgs @ [img])) *
          (the_real (data (self_mean (snd (update_all lt (imgs @ [img]) ?start))) ! j))\<^sup>2"
      unfolding m' q' ser by simp
  qed
qed

lemma new_statistics_0:
  "self_n (new_statistics dims decimals memory) = 0"
  "self_image_dimensions (new_statistics dims decimals memory) = dims"
  "self_mean (new_statistics dims decimals memory) = np_zeros dims"
  "self_M2 (new_statistics dims decimals memory) = np_zeros dims"
  by (simp_all add: new_statistics_def Let_def)

lemma list_of_two: "length xs = 2 \<Longrightarrow> xs = [xs ! 0, xs ! 1]"
  by (cases xs; cases "tl xs") auto

subsection \<open>Mean and variance\<close>

text \<open>
  Claim C1. Let a series of at least one image, all of the shape \<open>dims\<close> with at least one
  pixel and with numbers as pixels, be fed one at a time to a new instance with
  \<open>log_transform = False\<close>. Every call succeeds, \<open>n\<close> is the number of images, and at
  every pixel \<open>mean\<close> is the arithmetic mean of the series of that pixel. From two images
  on, \<open>var\<close> is at every pixel the sum of the squared deviations from that mean divided
  by \<open>n - 1\<close>, as a two-pass computation gives it. A further call changes every pixel by
  Welford's step: the mean by \<open>delta / n\<close> for the new \<open>n\<close> and \<open>delta = pixels - mean\<close>,
  then \<open>M2\<close> by \<open>delta * (pixels - mean)\<close> with the new mean. The arithmetic on numbers
  is exact.
\<close>

theorem welford_matches_two_pass:
  assumes ne: "imgs \<noteq> []" and pos: "0 < prod_list dims"
    and im: "\<forall>img \<in> set imgs. image_of_shape dims img \<and> list_all is_finite (data img)"
  shows "fst (update_all False imgs (new_statistics dims decimals memory)) = Inr ()
    \<and> self_n (snd (update_all False imgs (new_statistics dims decimals memory))) = length imgs
    \<and> image_of_shape dims (mean (snd (update_all False imgs (new_statistics dims decimals memory))))
    \<and> (\<forall>j < prod_list dims.
          data (mean (snd (update_all False imgs (new_statistics dims decimals memory)))) ! j =
            Finite (two_pass_mean (pixel_series imgs j)))
    \<and> (2 \<le> length imgs \<longrightarrow>
          shape (var (snd (update_all False imgs (new_statistics dims decimals memory)))) = dims
        \<and> length (data (var (snd (update_all False imgs (new_statistics dims decimals memory))))) =
            prod_list dims
        \<and> (\<forall>j < prod_list dims.
              data (var (snd (update_all False imgs (new_statistics dims decimals memory)))) ! j =
                Finite (two_pass_variance (pixel_series imgs j))))
    \<and> (\<forall>img. image_of_shape dims img \<and> list_all is_finite (data img) \<longrightarrow>
         (\<forall>j < prod_list dims.
          data (self_mean (snd (update img False
              (snd (update_all False imgs (new_statistics dims decimals memory)))))) ! j =
            Finite (the_real (data (self_mean (snd (update_all False imgs
                (new_statistics dims decimals memory)))) ! j)
              + (the_real (data img ! j)
                 - the_real (data (self_mean (snd (update_all False imgs
                     (new_statistics dims decimals memory)))) ! j))
                / real (length imgs + 1))
        \<and> data (self_M2 (snd (update img False
              (snd (update_all False imgs (new_statistics dims decimals memory)))))) ! j =
            Finite (the_real (data (self_M2 (snd (update_all False imgs
                (new_statistics dims decimals memory)))) ! j)
              + (the_real (data img ! j)
                 - the_real (data (self_mean (snd (update_all False imgs
                     (new_statistics dims decimals memory)))) ! j))
                * (the_real (data img ! j)
                   - the_real (data (self_mean (snd (update img False
                       (snd (update_all False imgs
                         (new_statistics dims decimals memory)))))) ! j)))))"
proof -
  let ?st = "snd (update_all False imgs (new_statistics dims decimals memory))"
  from im have im': "\<forall>img \<in> set imgs. image_of_shape dims img
      \<and> list_all is_finite (data (if False then np_log10 img else img))" by simp
  note W = update_all_welford [OF pos im', where decimals = decimals and memory = memory,
      simplified]
  from W have ok: "fst (update_all False imgs (new_statistics dims decimals memory)) = Inr ()"
    and ws: "well_shaped dims ?st" and n: "self_n ?st = length imgs" by simp_all
  have len: "length (pixel_series imgs j) = length imgs" for j
    by (simp add: pixel_series_def)
  have ser: "pixel_series imgs j \<noteq> []" for j using ne by (simp add: pixel_series_def)
  have fin: "is_finite (data (self_mean ?st) ! j)" "is_finite (data (self_M2 ?st) ! j)"
    if "j < prod_list dims" for j using W that by simp_all
  have mean_r: "the_real (data (self_mean ?st) ! j) = two_pass_mean (pixel_series imgs j)"
    if "j < prod_list dims" for j
  proof -
    from W that have "real (length (pixel_series imgs j)) * the_real (data (self_mean ?st) ! j) =
        sum_list (pixel_series imgs j)" by (simp add: len)
    from two_pass_from_sums(1) [OF ser this] show ?thesis .
  qed
  have M2_r: "the_real (data (self_M2 ?st) ! j) =
      sum_list (map (\<lambda>x. (x - two_pass_mean (pixel_series imgs j))\<^sup>2) (pixel_series imgs j))"
    if "j < prod_list dims" for j
  proof -
    from W that have a: "real (length (pixel_series imgs j)) * the_real (data (self_mean ?st) ! j) =
        sum_list (pixel_series imgs j)" by (simp add: len)
    from W that have "the_real (data (self_M2 ?st) ! j) =
        sum_list (map (\<lambda>x. x\<^sup>2) (pixel_series imgs j))
        - real (length (pixel_series imgs j)) * (the_real (data (self_mean ?st) ! j))\<^sup>2"
      by (simp add: len)
    with two_pass_from_sums(2) [OF ser a] show ?thesis by simp
  qed
  have mean_j: "data (self_mean ?st) ! j = Finite (two_pass_mean (pixel_series imgs j))"
    if "j < prod_list dims" for j
    using finite_float [OF fin(1) [OF that]] mean_r [OF that] by simp
  have M2_j: "data (self_M2 ?st) ! j = Finite (sum_list
      (map (\<lambda>x. (x - two_pass_mean (pixel_series imgs j))\<^sup>2) (pixel_series imgs j)))"
    if "j < prod_list dims" for j
    using finite_float [OF fin(2) [OF that]] M2_r [OF that] by simp
  from ws have shp: "image_of_shape dims (self_mean ?st)" "shape (self_M2 ?st) = dims"
    "length (data (self_M2 ?st)) = prod_list dims"
    by (simp_all add: well_shaped_def image_of_shape_def)
  have v: "shape (var ?st) = dims \<and> length (data (var ?st)) = prod_list dims \<and>
      (\<forall>j < prod_list dims. data (var ?st) ! j = Finite (two_pass_variance (pixel_series imgs j)))"
    if "2 \<le> length imgs"
    using that shp M2_j by (simp add: var_def n two_pass_variance_def len)
  have st: "data (self_mean (snd (update img False ?st))) ! j =
        Finite (the_real (data (self_mean ?st) ! j)
          + (the_real (data img ! j) - the_real (data (self_mean ?st) ! j))
            / real (length imgs + 1))
      \<and> data (self_M2 (snd (update img False ?st))) ! j =
        Finite (the_real (data (self_M2 ?st) ! j)
          + (the_real (data img ! j) - the_real (data (self_mean ?st) ! j))
            * (the_real (data img ! j)
               - the_real (data (self_mean (snd (update img False ?st))) ! j)))"
    if i: "image_of_shape dims img" and f: "list_all is_finite (data img)"
      and j: "j < prod_list dims" for img j
  proof -
    from i j have "j < length (data img)" by (simp add: image_of_shape_def)
    from nth_finite [OF f this]
    have x: "data (if False then np_log10 img else img) ! j = Finite (the_real (data img ! j))"
      by simp
    note F = update_finite_step [OF ws i pos j x finite_float [OF fin(1) [OF j]]
        finite_float [OF fin(2) [OF j]], unfolded n]
    show ?thesis unfolding F by simp
  qed
  from ok n shp(1) mean_j v st show ?thesis by (simp add: mean_def)
qed

theorem welford_matches_two_pass_witness:
  "[pixels_1_2, pixels_3_6] \<noteq> [] \<and> 0 < prod_list [2::nat]
   \<and> image_of_shape [2] pixels_1_2 \<and> list_all is_finite (data pixels_1_2)
   \<and> image_of_shape [2] pixels_3_6 \<and> list_all is_finite (data pixels_3_6)
   \<and> fst (update_all False [pixels_1_2, pixels_3_6] (new_statistics [2] 0 (\<lambda>i. Finite 0))) = Inr ()
   \<and> data (mean (snd (update_all False [pixels_1_2, pixels_3_6]
        (new_statistics [2] 0 (\<lambda>i. Finite 0))))) = [Finite 2, Finite 4]
   \<and> data (var (snd (update_all False [pixels_1_2, pixels_3_6]
        (new_statistics [2] 0 (\<lambda>i. Finite 0))))) = [Finite 2, Finite 8]"
proof -
  let ?imgs = "[pixels_1_2, pixels_3_6]"
  let ?st = "snd (update_all False ?imgs (new_statistics [2] 0 (\<lambda>i. Finite 0)))"
  have ne: "?imgs \<noteq> []" by simp
  have pos: "0 < prod_list [2::nat]" by simp
  have a: "image_of_shape [2] pixels_1_2" "list_all is_finite (data pixels_1_2)"
    and b: "image_of_shape [2] pixels_3_6" "list_all is_finite (data pixels_3_6)"
    by (simp_all add: image_of_shape_def pixels_1_2_def pixels_3_6_def)
  then have im: "\<forall>img \<in> set ?imgs. image_of_shape [2] img \<and> list_all is_finite (data img)"
    by simp
  note T = welford_matches_two_pass [OF ne pos im, of 0 "\<lambda>i. Finite 0"]
  have s0: "pixel_series ?imgs 0 = [1, 3]" and s1: "pixel_series ?imgs 1 = [2, 6]"
    by (simp_all add: pixel_series_def pixels_1_2_def pixels_3_6_def)
  have m0: "two_pass_mean [1, 3] = 2" and m1: "two_pass_mean [2, 6] = 4"
    by (simp_all add: two_pass_mean_def)
  have v0: "two_pass_variance [1, 3] = 2" and v1: "two_pass_variance [2, 6] = 8"
    by (simp_all add: two_pass_variance_def m0 m1)
  have j0: "0 < prod_list [2::nat]" and j1: "1 < prod_list [2::nat]" and two: "2 \<le> length ?imgs"
    by simp_all
  note ok = T [THEN conjunct1]
  note shp = T [THEN conjunct2, THEN conjunct2, THEN conjunct1]
  note mn = T [THEN conjunct2, THEN conjunct2, THEN conjunct2, THEN conjunct1, rule_format]
  note vr = T [THEN conjunct2, THEN conjunct2, THEN conjunct2, THEN conjunct2, THEN conjunct1,
      rule_format, OF two]
  from shp have "length (data (mean ?st)) = 2" by (simp add: image_of_shape_def)
  from list_of_two [OF this] mn [OF j0] mn [OF j1]
  have mean: "data (mean ?st) = [Finite 2, Finite 4]" by (simp only: s0 s1 m0 m1)
  from vr have "length (data (var ?st)) = 2" by simp
  from list_of_two [OF this] vr [THEN conjunct2, THEN conjunct2, rule_format, OF j0]
    vr [THEN conjunct2, THEN conjunct2, rule_format, OF j1]
  have var: "data (var ?st) = [Finite 2, Finite 8]" by (simp only: s0 s1 v0 v1)
  from ne pos a b ok mean var show ?thesis by (simp only: simp_thms)
qed

subsection \<open>Images of another shape\<close>

text \<open>
  Claim C3, as the code has it. \<open>update\<close> does not compare shapes. For an instance as the
  constructor makes it and an image with at least one pixel whose shape cannot be broadcast
  with that of the instance, the first subtraction raises numpy's \<open>ValueError\<close>, and
  \<open>_mean\<close> and \<open>_M2\<close> are what they were before the call.
\<close>

theorem mismatched_shape_not_broadcastable:
  assumes ws: "well_shaped dims s" and ne: "data img \<noteq> []"
    and nb: "broadcast_shapes (shape img) dims = None"
  shows "shape img \<noteq> dims
    \<and> fst (update img log_transform s) = Inl ValueError
    \<and> self_mean (snd (update img log_transform s)) = self_mean s
    \<and> self_M2 (snd (update img log_transform s)) = self_M2 s"
proof -
  from ws have q: "list_all (\<lambda>p. 0 \<le> p \<and> p \<le> 100) (self_q s)"
    and sh: "shape (self_mean s) = dims" by (simp_all add: well_shaped_def image_of_shape_def)
  from nb have "shape img \<noteq> dims" using broadcast_shapes_refl [of dims] by auto
  moreover from np_percentile_succeeds [OF q ne] obtain p
    where p: "np_percentile img (self_q s) = Inr p" by blast
  note update_not_broadcastable [OF p, of log_transform]
  ultimately show ?thesis using nb sh by simp
qed

theorem mismatched_shape_not_broadcastable_witness:
  "well_shaped [2] (new_statistics [2] 0 (\<lambda>i. Finite 0)) \<and> data pixels_1_2_3 \<noteq> []
   \<and> broadcast_shapes (shape pixels_1_2_3) [2] = None
   \<and> fst (update pixels_1_2_3 True (new_statistics [2] 0 (\<lambda>i. Finite 0))) = Inl ValueError
   \<and> self_mean (snd (update pixels_1_2_3 True (new_statistics [2] 0 (\<lambda>i. Finite 0)))) =
       np_zeros [2]
   \<and> self_M2 (snd (update pixels_1_2_3 True (new_statistics [2] 0 (\<lambda>i. Finite 0)))) =
       np_zeros [2]"
proof -
  have ne: "data pixels_1_2_3 \<noteq> []" by (simp add: pixels_1_2_3_def)
  have nb: "broadcast_shapes (shape pixels_1_2_3) [2] = None"
    by (simp add: pixels_1_2_3_def broadcast_shapes_def)
  note ws = new_statistics_well_shaped [of "[2]" 0 "\<lambda>i. Finite 0"]
  from mismatched_shape_not_broadcastable [OF ws ne nb, where log_transform = True] ws ne nb
  show ?thesis by (simp only: new_statistics_0 simp_thms)
qed

text \<open>
  The claim has every other shape rejected and the instance unchanged. An image of shape
  \<open>(1,)\<close> is accepted by an instance for shape \<open>(2,)\<close> and broadcast; an image of shape
  \<open>(3,)\<close> is rejected only after \<open>n\<close> has been incremented.
\<close>

theorem mismatched_shape_broadcast_or_partly_applied:
  "shape pixels_4 \<noteq> self_image_dimensions (new_statistics [2] 0 (\<lambda>i. Finite 0))
   \<and> fst (update pixels_4 False (new_statistics [2] 0 (\<lambda>i. Finite 0))) = Inr ()
   \<and> data (self_mean (snd (update pixels_4 False (new_statistics [2] 0 (\<lambda>i. Finite 0))))) =
       [Finite 4, Finite 4]
   \<and> shape pixels_1_2_3 \<noteq> self_image_dimensions (new_statistics [2] 0 (\<lambda>i. Finite 0))
   \<and> fst (update pixels_1_2_3 False (new_statistics [2] 0 (\<lambda>i. Finite 0))) = Inl ValueError
   \<and> self_n (new_statistics [2] 0 (\<lambda>i. Finite 0)) = 0
   \<and> self_n (snd (update pixels_1_2_3 False (new_statistics [2] 0 (\<lambda>i. Finite 0)))) = 1"
proof -
  let ?st = "new_statistics [2] 0 (\<lambda>i. Finite 0)"
  have q: "list_all (\<lambda>p. 0 \<le> p \<and> p \<le> 100) (self_q ?st)" by (rule new_statistics_q_in_range)
  have "data pixels_4 \<noteq> []" by (simp add: pixels_4_def)
  from np_percentile_succeeds [OF q this] obtain p4
    where p4: "np_percentile pixels_4 (self_q ?st) = Inr p4" by blast
  have "data pixels_1_2_3 \<noteq> []" by (simp add: pixels_1_2_3_def)
  from np_percentile_succeeds [OF q this] obtain p3
    where p3: "np_percentile pixels_1_2_3 (self_q ?st) = Inr p3" by blast
  have nb: "broadcast_shapes (shape pixels_1_2_3) (shape (self_mean ?st)) = None"
    by (simp add: pixels_1_2_3_def broadcast_shapes_def new_statistics_0 np_zeros_def)
  have b: "broadcast_shapes [Suc 0] [2] = Some [2]"
    by (simp add: broadcast_shapes_def)
  have px: "shape pixels_4 = [1]" "data pixels_4 = [Finite 4]" by (simp_all add: pixels_4_def)
  have bt: "broadcast_to [2] pixels_4 = [Finite 4, Finite 4]"
    by (simp add: broadcast_to_def ravel_def px upt_rec)
  have bz: "broadcast_to [2] \<lparr> shape = [2], data = [x, y] \<rparr> = [x, y]" for x y :: npfloat
    by (simp add: broadcast_to_def ravel_def upt_rec)
  have d1: "np_binop f pixels_4 \<lparr> shape = [2], data = [x, y] \<rparr> =
      Inr \<lparr> shape = [2], data = [f (Finite 4) x, f (Finite 4) y] \<rparr>" for f x y
    by (simp add: np_binop_def px b bt bz)
  have d2: "np_binop f \<lparr> shape = [2], data = [x, y] \<rparr> \<lparr> shape = [2], data = [x', y'] \<rparr> =
      Inr \<lparr> shape = [2], data = [f x x', f y y'] \<rparr>" for f and x y x' y' :: npfloat
    by (simp add: np_binop_def)
  have z: "np_zeros [2] = \<lparr> shape = [2], data = [Finite 0, Finite 0] \<rparr>"
    by (simp add: np_zeros_def numeral_2_eq_2)
  have u4: "fst (update pixels_4 False ?st) = Inr () \<and>
      data (self_mean (snd (update pixels_4 False ?st))) = [Finite 4, Finite 4]"
    by (simp add: update_def p4 Let_def new_statistics_0 z d1 d2 np_div_scalar_def float_sub_def)
  from update_not_broadcastable [OF p3 nb, of False] u4
  show ?thesis
    by (simp add: new_statistics_0 px pixels_1_2_3_def)
qed

subsection \<open>The percentiles\<close>

lemma new_statistics_percentiles:
  "self_percentiles (new_statistics dims decimals memory) =
     map memory [0..<10 ^ nat (decimals + 2)]"
  "length (self_keys (new_statistics dims decimals memory)) = 10 ^ nat (decimals + 2)"
  by (simp_all add: new_statistics_def Let_def length_np_linspace)

lemma py_int_of_int: "py_int (of_int v) = v"
  by (simp add: py_int_def)

lemma items_until_error_all_ok: "items_until_error (map Inr xs) = Inr xs"
  by (induction xs) simp_all

lemma percentile_items_constant:
  assumes sums: "self_percentiles s = replicate P (Finite c)"
    and keys: "length (self_keys s) = P" and n: "0 < self_n s"
  shows "percentile_items s =
     Inr (zip (self_keys s) (replicate P (py_int (c / real (self_n s)))))"
proof -
  have "map (percentile_item s) (enumerate 0 (self_percentiles s)) =
      map Inr (zip (self_keys s) (replicate P (py_int (c / real (self_n s)))))"
    using keys n unfolding sums
    by (intro nth_equalityI) (simp_all add: percentile_item_def nth_enumerate_eq)
  then show ?thesis by (simp add: percentile_items_def items_until_error_all_ok)
qed

lemma percentiles_of_constant_sums:
  assumes sums: "self_percentiles s = replicate P (Finite c)"
    and keys: "length (self_keys s) = P" and n: "0 < self_n s"
  shows "\<exists>m. percentiles s = Inr m \<and> dom m = set (self_keys s)
    \<and> (\<forall>k \<in> set (self_keys s). m k = Some (py_int (c / real (self_n s))))"
proof -
  let ?v = "py_int (c / real (self_n s))"
  let ?items = "zip (self_keys s) (replicate P ?v)"
  have p: "percentiles s = Inr (map_of (rev ?items))"
    by (simp add: percentiles_def percentile_items_constant [OF sums keys n])
  have fs: "fst ` set (rev ?items) = set (self_keys s)"
  proof -
    have "fst ` set (rev ?items) = set (map fst ?items)" by simp
    also have "map fst ?items = self_keys s" using keys by simp
    finally show ?thesis .
  qed
  have d: "dom (map_of (rev ?items)) = set (self_keys s)"
    by (simp only: dom_map_of_conv_image_fst fs)
  have v: "map_of (rev ?items) k = Some ?v" if "k \<in> set (self_keys s)" for k
  proof -
    from that d have "k \<in> dom (map_of (rev ?items))" by simp
    then obtain y where y: "map_of (rev ?items) k = Some y" by blast
    then have "(k, y) \<in> set (rev ?items)" by (rule map_of_SomeD)
    then have "(k, y) \<in> set ?items" by simp
    then have "y \<in> set (replicate P ?v)" by (rule set_zip_rightD)
    then have "y = ?v" by simp
    with y show ?thesis by simp
  qed
  from p d v show ?thesis by blast
qed

lemma zero_key: "0 \<in> set (self_keys (new_statistics dims 0 memory))"
  by (simp add: new_statistics_def Let_def np_linspace_def)
    (rule image_eqI [where x = 0], simp_all add: py_round_def)

text \<open>
  The round trip of a constant image. Let the constructor succeed on a buffer
  \<open>_percentiles\<close> that happens to hold zeros, and let the image of the constant integer
  \<open>v\<close>, with at least one pixel, be fed \<open>count \<ge> 1\<close> times. Then \<open>percentiles\<close> returns
  a dictionary whose keys are the rounded probabilities and in which every key maps to
  \<open>v\<close>.
\<close>

lemma constant_images_percentiles:
  assumes init: "OnlineStatistics_init dims decimals (\<lambda>i. Finite 0) = Inr s"
    and count: "0 < count" and pos: "0 < prod_list dims"
  shows "\<exists>m. percentiles (snd (update_all lt
            (replicate count (constant_image dims (of_int v))) s)) = Inr m
      \<and> dom m = set (self_keys s)
      \<and> (\<forall>k \<in> set (self_keys s). m k = Some v)"
proof -
  let ?st = "snd (update_all lt (replicate count (constant_image dims (of_int v))) s)"
  from init have s: "s = new_statistics dims decimals (\<lambda>i. Finite 0)"
    by (simp add: OnlineStatistics_init_def split: if_splits)
  have ws: "well_shaped dims s" unfolding s by (rule new_statistics_well_shaped)
  have r: "map (constant_image dims) (replicate count (of_int v)) =
      replicate count (constant_image dims (of_int v))" by simp
  note C = update_all_constants [OF pos ws, of lt "replicate count (of_int v)", unfolded r]
  let ?P = "10 ^ nat (decimals + 2) :: nat"
  from C have n: "self_n ?st = count" by (simp add: s new_statistics_0)
  from C have k: "self_keys ?st = self_keys s" by simp
  from C have "self_percentiles ?st =
      map (\<lambda>x. float_add x (Finite (sum_list (replicate count (of_int v)))))
        (self_percentiles s)" by simp
  then have p: "self_percentiles ?st = replicate ?P (Finite (real count * of_int v))"
    by (simp add: s new_statistics_percentiles sum_list_replicate map_replicate_const)
  have kl: "length (self_keys ?st) = ?P"
    unfolding k by (simp add: s new_statistics_percentiles)
  have n0: "0 < self_n ?st" using n count by simp
  have "py_int (real count * of_int v / real (self_n ?st)) = v"
    using count by (simp add: n py_int_of_int)
  with percentiles_of_constant_sums [OF p kl n0] show ?thesis by (simp add: k)
qed

lemma constant_images_percentiles_example:
  "OnlineStatistics_init [1] 0 (\<lambda>i. Finite 0) = Inr (new_statistics [1] 0 (\<lambda>i. Finite 0))
   \<and> (0::nat) < 2 \<and> 0 < prod_list [1::nat]
   \<and> (case percentiles (snd (update_all True (replicate 2 (constant_image [1] (of_int 7)))
          (new_statistics [1] 0 (\<lambda>i. Finite 0)))) of
         Inl e \<Rightarrow> None | Inr m \<Rightarrow> m 0) = Some 7"
proof -
  have i: "OnlineStatistics_init [1] 0 (\<lambda>i. Finite 0) =
      Inr (new_statistics [1] 0 (\<lambda>i. Finite 0))"
    by (simp add: OnlineStatistics_init_def)
  have c: "(0::nat) < 2" and p: "0 < prod_list [1::nat]" by simp_all
  from constant_images_percentiles [OF i c p, of True 7]
  obtain m where m: "percentiles (snd (update_all True (replicate 2 (constant_image [1] (of_int 7)))
          (new_statistics [1] 0 (\<lambda>i. Finite 0)))) = Inr m"
    and k: "\<forall>k \<in> set (self_keys (new_statistics [1] 0 (\<lambda>i. Finite 0))). m k = Some 7" by blast
  from k zero_key have "m 0 = Some 7" by blast
  with i c p show ?thesis unfolding m by simp
qed

text \<open>
  Claim C4. The claim has \<open>percentiles\<close> return, for every key, the quotient of the
  percentile sum by the count rounded to an integer, as the docstring of the property
  says. The code takes \<open>int\<close> of the quotient, which truncates. After the constant images
  1, 2 and 2, fed to an instance whose buffer holds zeros, \<open>n\<close> is 3 and every sum is 5:
  the dictionary maps the key 0 to \<open>int(5 / 3) = 1\<close>, whereas 5/3 rounds to 2.
\<close>

theorem percentiles_truncate:
  "self_n (snd (update_all False (map (constant_image [1]) [1, 2, 2])
       (new_statistics [1] 0 (\<lambda>i. Finite 0)))) = 3
   \<and> self_percentiles (snd (update_all False (map (constant_image [1]) [1, 2, 2])
       (new_statistics [1] 0 (\<lambda>i. Finite 0)))) = replicate 100 (Finite 5)
   \<and> (case percentiles (snd (update_all False (map (constant_image [1]) [1, 2, 2])
          (new_statistics [1] 0 (\<lambda>i. Finite 0)))) of
         Inl e \<Rightarrow> None | Inr m \<Rightarrow> m 0) = Some 1
   \<and> round (5 / 3 :: real) = 2"
proof -
  let ?st = "snd (update_all False (map (constant_image [1]) [1, 2, 2])
       (new_statistics [1] 0 (\<lambda>i. Finite 0)))"
  have p: "0 < prod_list [1::nat]" by simp
  note C = update_all_constants [OF p new_statistics_well_shaped [of "[1]" 0 "\<lambda>i. Finite 0"],
      where lt = False and vs = "[1, 2, 2]"]
  from C have n: "self_n ?st = 3" by (simp only: new_statistics_0) simp
  from C have k: "self_keys ?st = self_keys (new_statistics [1] 0 (\<lambda>i. Finite 0))" by blast
  from C have "self_percentiles ?st =
      map (\<lambda>x. float_add x (Finite (sum_list [1, 2, 2])))
        (self_percentiles (new_statistics [1] 0 (\<lambda>i. Finite 0)))"
    by blast
  then have s: "self_percentiles ?st = replicate 100 (Finite 5)"
    by (simp only: new_statistics_percentiles) (simp add: map_replicate_const)
  have kl: "length (self_keys ?st) = 100"
    unfolding k by (simp add: new_statistics_percentiles)
  have n0: "0 < self_n ?st" unfolding n by simp
  from percentiles_of_constant_sums [OF s kl n0]
  obtain m where m: "percentiles ?st = Inr m"
    and v: "\<forall>k \<in> set (self_keys ?st). m k = Some (py_int (5 / real (self_n ?st)))" by auto
  have "py_int (5 / real (self_n ?st)) = 1"
    unfolding n by (simp add: py_int_def)
  with v zero_key [of "[1]" "\<lambda>i. Finite 0"] have "m 0 = Some 1" unfolding k by auto
  moreover have "round (5 / 3 :: real) = 2" by (simp add: round_def)
  ultimately show ?thesis using n s unfolding m by simp
qed

subsection \<open>The logarithm inside or outside of \<open>update\<close>\<close>

text \<open>
  Claim C7, as the code has it. For every instance and every image, \<open>update\<close> with
  \<open>log_transform = True\<close> and \<open>update\<close> of the image transformed beforehand with
  \<open>log_transform = False\<close> have the same outcome and leave the same \<open>n\<close>, \<open>_mean\<close> and
  \<open>_M2\<close>.
\<close>

theorem log_transform_inside_or_outside:
  "fst (update img True s) = fst (update (np_log10 img) False s)
  \<and> self_n (snd (update img True s)) = self_n (snd (update (np_log10 img) False s))
  \<and> self_mean (snd (update img True s)) = self_mean (snd (update (np_log10 img) False s))
  \<and> self_M2 (snd (update img True s)) = self_M2 (snd (update (np_log10 img) False s))"
  by (auto simp: update_def Let_def np_percentile_def np_log10_def split: sum.splits if_splits)

text \<open>
  The claim includes the percentile sums. They are taken from the pixels as passed: for an
  image of the constant 10 the first call adds 10 to every sum, the second call adds
  \<open>log10(10) = 1\<close>.
\<close>

theorem percentiles_of_raw_pixels:
  "self_percentiles (snd (update (constant_image [1] 10) True
        (new_statistics [1] 0 (\<lambda>i. Finite 0)))) = replicate 100 (Finite 10)
   \<and> self_percentiles (snd (update (np_log10 (constant_image [1] 10)) False
        (new_statistics [1] 0 (\<lambda>i. Finite 0)))) = replicate 100 (Finite 1)"
proof -
  have p: "0 < prod_list [1::nat]" by simp
  have l: "np_log10 (constant_image [1] 10) = constant_image [1] 1"
    by (simp add: np_log10_def constant_image_def)
  show ?thesis
    unfolding l
    by (simp only: update_constant_percentiles [OF new_statistics_well_shaped [of "[1]"] p]
        new_statistics_percentiles) (simp add: map_replicate_const)
qed

subsection \<open>The variance\<close>

lemma log10_100: "log 10 100 = 2"
proof -
  have "log 10 100 = log 10 (10 ^ 2)" by simp
  also have "\<dots> = 2" by (simp only: log_nat_power) simp
  finally show ?thesis .
qed

lemma log_series:
  "pixel_series (map (\<lambda>img. if True then np_log10 img else img) [pixels_1_10, pixels_100_10]) 0 =
     [0, 2]"
  "pixel_series (map (\<lambda>img. if True then np_log10 img else img) [pixels_1_10, pixels_100_10]) 1 =
     [1, 1]"
  by (simp_all add: pixel_series_def np_log10_def pixels_1_10_def pixels_100_10_def log10_100)

text \<open>
  The logarithm of a pixel is a number exactly when the pixel is a positive number: the
  log-transformed data of an image are finite exactly when all its pixels are positive.
\<close>

lemma float_log10_finite_iff: "is_finite (float_log10 a) \<longleftrightarrow> is_positive a"
  by (cases a) simp_all

lemma np_log10_finite_iff:
  "list_all is_finite (data (np_log10 img)) \<longleftrightarrow> list_all is_positive (data img)"
  by (simp add: np_log10_def list_all_iff float_log10_finite_iff)

text \<open>
  Claim C8. \<open>var\<close> has no operation that raises; what the claim says of its elements is
  this. Let images of the shape \<open>dims\<close>, with at least one pixel, be fed one at a time to a
  new instance. Every call succeeds and \<open>n\<close> is the number of images, whatever the pixels
  are and with or without the logarithm. After no image and after one image \<open>var\<close> is the
  array of shape \<open>dims\<close> filled with \<open>nan\<close>. After two or more images whose data, as
  \<open>update\<close> accumulates them (log-transformed if \<open>log_transform\<close> is set), are finite,
  \<open>var\<close> has the shape \<open>dims\<close>, and each of its elements is a number: the element of
  \<open>_M2\<close>, itself a number, divided by \<open>n - 1\<close>, which is the variance of the series of
  that pixel. The arithmetic on numbers is exact.
\<close>

theorem variance_nan_below_two_updates_finite_after:
  assumes pos: "0 < prod_list dims"
    and im: "\<forall>img \<in> set imgs. image_of_shape dims img"
  shows "fst (update_all lt imgs (new_statistics dims decimals memory)) = Inr ()
    \<and> self_n (snd (update_all lt imgs (new_statistics dims decimals memory))) = length imgs
    \<and> (length imgs < 2 \<longrightarrow>
          var (snd (update_all lt imgs (new_statistics dims decimals memory))) =
            \<lparr> shape = dims, data = replicate (prod_list dims) NaN \<rparr>)
    \<and> (2 \<le> length imgs
        \<and> (\<forall>img \<in> set imgs. list_all is_finite (data (if lt then np_log10 img else img))) \<longrightarrow>
          shape (var (snd (update_all lt imgs (new_statistics dims decimals memory)))) = dims
        \<and> length (data (var (snd (update_all lt imgs (new_statistics dims decimals memory))))) =
            prod_list dims
        \<and> (\<forall>j < prod_list dims.
              is_finite (data (self_M2 (snd (update_all lt imgs
                  (new_statistics dims decimals memory)))) ! j)
            \<and> data (var (snd (update_all lt imgs (new_statistics dims decimals memory)))) ! j =
                Finite (the_real (data (self_M2 (snd (update_all lt imgs
                    (new_statistics dims decimals memory)))) ! j) / real (length imgs - 1))
            \<and> data (var (snd (update_all lt imgs (new_statistics dims decimals memory)))) ! j =
                Finite (two_pass_variance
                  (pixel_series (map (\<lambda>img. if lt then np_log10 img else img) imgs) j))))"
proof -
  let ?new = "new_statistics dims decimals memory"
  let ?st = "snd (update_all lt imgs ?new)"
  let ?tr = "\<lambda>img. if lt then np_log10 img else img"
  note C = update_all_counts [OF pos new_statistics_well_shaped [of dims decimals memory] im,
      where lt = lt]
  from C have ok: "fst (update_all lt imgs ?new) = Inr ()"
    and ws: "well_shaped dims ?st" and n: "self_n ?st = length imgs"
    by (simp_all add: new_statistics_0)
  from ws have d: "self_image_dimensions ?st = dims" "shape (self_M2 ?st) = dims"
    "length (data (self_M2 ?st)) = prod_list dims"
    by (simp_all add: well_shaped_def image_of_shape_def)
  have nan: "var ?st = \<lparr> shape = dims, data = replicate (prod_list dims) NaN \<rparr>"
    if "length imgs < 2"
    using that by (simp add: var_def n d)
  have fin: "shape (var ?st) = dims \<and> length (data (var ?st)) = prod_list dims
      \<and> (\<forall>j < prod_list dims.
            is_finite (data (self_M2 ?st) ! j)
          \<and> data (var ?st) ! j =
              Finite (the_real (data (self_M2 ?st) ! j) / real (length imgs - 1))
          \<and> data (var ?st) ! j = Finite (two_pass_variance (pixel_series (map ?tr imgs) j)))"
    if two: "2 \<le> length imgs"
      and f: "\<forall>img \<in> set imgs. list_all is_finite (data (if lt then np_log10 img else img))"
  proof -
    from im f have im': "\<forall>img \<in> set imgs. image_of_shape dims img
        \<and> list_all is_finite (data (if lt then np_log10 img else img))" by simp
    note W = update_all_welford [OF pos im', where decimals = decimals and memory = memory]
    have len: "length (pixel_series (map ?tr imgs) j) = length imgs" for j
      by (simp add: pixel_series_def)
    have ser: "pixel_series (map ?tr imgs) j \<noteq> []" for j
      using two by (auto simp: pixel_series_def)
    have el: "is_finite (data (self_M2 ?st) ! j)
        \<and> data (var ?st) ! j =
            Finite (the_real (data (self_M2 ?st) ! j) / real (length imgs - 1))
        \<and> data (var ?st) ! j = Finite (two_pass_variance (pixel_series (map ?tr imgs) j))"
      if j: "j < prod_list dims" for j
    proof -
      from W j have qf: "is_finite (data (self_M2 ?st) ! j)" by blast
      from W j have a: "real (length (pixel_series (map ?tr imgs) j))
            * the_real (data (self_mean ?st) ! j) = sum_list (pixel_series (map ?tr imgs) j)"
        unfolding len by blast
      from W j have b: "the_real (data (self_M2 ?st) ! j) =
          sum_list (map (\<lambda>x. x\<^sup>2) (pixel_series (map ?tr imgs) j))
          - real (length (pixel_series (map ?tr imgs) j))
            * (the_real (data (self_mean ?st) ! j))\<^sup>2"
        unfolding len by blast
      from two_pass_from_sums(2) [OF ser a] b
      have q: "the_real (data (self_M2 ?st) ! j) =
          sum_list (map (\<lambda>x. (x - two_pass_mean (pixel_series (map ?tr imgs) j))\<^sup>2)
            (pixel_series (map ?tr imgs) j))" by simp
      have l1: "length imgs - 1 \<noteq> 0" using two by simp
      have "data (var ?st) ! j = float_div_int (data (self_M2 ?st) ! j) (length imgs - 1)"
        using two j d by (simp add: var_def n)
      also have "\<dots> = float_div_int (Finite (the_real (data (self_M2 ?st) ! j)))
          (length imgs - 1)"
        using finite_float [OF qf] by simp
      also have "\<dots> = Finite (the_real (data (self_M2 ?st) ! j) / real (length imgs - 1))"
        using l1 by simp
      finally have v: "data (var ?st) ! j =
          Finite (the_real (data (self_M2 ?st) ! j) / real (length imgs - 1))" .
      have "the_real (data (self_M2 ?st) ! j) / real (length imgs - 1) =
          two_pass_variance (pixel_series (map ?tr imgs) j)"
        unfolding q by (simp add: two_pass_variance_def len)
      with qf v show ?thesis by simp
    qed
    have "shape (var ?st) = dims" "length (data (var ?st)) = prod_list dims"
      using two d by (simp_all add: var_def n)
    with el show ?thesis by blast
  qed
  from ok n nan fin show ?thesis by blast
qed

theorem variance_nan_below_two_updates_finite_after_witness:
  "0 < prod_list [2::nat]
   \<and> image_of_shape [2] pixels_0_10 \<and> image_of_shape [2] pixels_1_10
   \<and> image_of_shape [2] pixels_100_10
   \<and> list_all is_finite (data (np_log10 pixels_1_10))
   \<and> list_all is_finite (data (np_log10 pixels_100_10))
   \<and> var (snd (update_all True [] (new_statistics [2] 0 (\<lambda>i. Finite 0)))) =
         \<lparr> shape = [2], data = [NaN, NaN] \<rparr>
   \<and> fst (update_all True [pixels_0_10] (new_statistics [2] 0 (\<lambda>i. Finite 0))) = Inr ()
   \<and> var (snd (update_all True [pixels_0_10] (new_statistics [2] 0 (\<lambda>i. Finite 0)))) =
         \<lparr> shape = [2], data = [NaN, NaN] \<rparr>
   \<and> fst (update_all True [pixels_1_10, pixels_100_10]
         (new_statistics [2] 0 (\<lambda>i. Finite 0))) = Inr ()
   \<and> shape (var (snd (update_all True [pixels_1_10, pixels_100_10]
         (new_statistics [2] 0 (\<lambda>i. Finite 0))))) = [2]
   \<and> data (var (snd (update_all True [pixels_1_10, pixels_100_10]
         (new_statistics [2] 0 (\<lambda>i. Finite 0))))) = [Finite 2, Finite 0]"
proof -
  let ?start = "new_statistics [2] 0 (\<lambda>i. Finite 0)"
  let ?imgs = "[pixels_1_10, pixels_100_10]"
  let ?st = "snd (update_all True ?imgs ?start)"
  have pos: "0 < prod_list [2::nat]" by simp
  have z: "image_of_shape [2] pixels_0_10"
    and a: "image_of_shape [2] pixels_1_10" "list_all is_finite (data (np_log10 pixels_1_10))"
    and b: "image_of_shape [2] pixels_100_10" "list_all is_finite (data (np_log10 pixels_100_10))"
    by (simp_all add: image_of_shape_def np_log10_def pixels_0_10_def pixels_1_10_def
        pixels_100_10_def)
  have i0: "\<forall>img \<in> set []. image_of_shape [2] img" by simp
  have i1: "\<forall>img \<in> set [pixels_0_10]. image_of_shape [2] img" using z by simp
  have i2: "\<forall>img \<in> set ?imgs. image_of_shape [2] img" using a b by simp
  have l0: "length ([] :: npfloat ndarray list) < 2" and l1: "length [pixels_0_10] < 2"
    by simp_all
  have l2: "2 \<le> length ?imgs
      \<and> (\<forall>img \<in> set ?imgs. list_all is_finite (data (if True then np_log10 img else img)))"
    using a b by simp
  have nan: "replicate (prod_list [2]) NaN = [NaN, NaN]" by (simp add: numeral_2_eq_2)
  note T0 = variance_nan_below_two_updates_finite_after [OF pos i0, of True 0 "\<lambda>i. Finite 0",
      THEN conjunct2, THEN conjunct2, THEN conjunct1, rule_format, OF l0]
  note T1 = variance_nan_below_two_updates_finite_after [OF pos i1, of True 0 "\<lambda>i. Finite 0"]
  note T1ok = T1 [THEN conjunct1]
  note T1nan = T1 [THEN conjunct2, THEN conjunct2, THEN conjunct1, rule_format, OF l1]
  note T2 = variance_nan_below_two_updates_finite_after [OF pos i2, of True 0 "\<lambda>i. Finite 0"]
  note T2ok = T2 [THEN conjunct1]
  note T2fin = T2 [THEN conjunct2, THEN conjunct2, THEN conjunct2, rule_format, OF l2]
  have j0: "0 < prod_list [2::nat]" and j1: "1 < prod_list [2::nat]" by simp_all
  have v0: "two_pass_variance [0, 2] = 2" and v1: "two_pass_variance [1, 1] = 0"
    by (simp_all add: two_pass_variance_def two_pass_mean_def)
  note sh = T2fin [THEN conjunct1]
  from T2fin have "length (data (var ?st)) = 2" by simp
  from list_of_two [OF this]
    T2fin [THEN conjunct2, THEN conjunct2, rule_format, OF j0, THEN conjunct2, THEN conjunct2]
    T2fin [THEN conjunct2, THEN conjunct2, rule_format, OF j1, THEN conjunct2, THEN conjunct2]
  have v2: "data (var ?st) = [Finite 2, Finite 0]"
    by (simp only: log_series v0 v1)
  from pos z a b T0 T1ok T1nan T2ok sh v2 show ?thesis unfolding nan by (simp only: simp_thms)
qed

text \<open>
  Without the hypothesis on the data the elements need not be numbers. The logarithm of a
  pixel 0 is \<open>-inf\<close>: the first call makes the mean of that pixel \<open>-inf\<close> and its
  element of \<open>_M2\<close>, the product with \<open>-inf - (-inf)\<close>, \<open>nan\<close>, and \<open>nan\<close> it stays.
  After two such images \<open>var\<close> is \<open>nan\<close> at that pixel.
\<close>

lemma variance_of_zero_pixel_is_nan:
  "fst (update_all True [pixels_0_10, pixels_0_10] (new_statistics [2] 0 (\<lambda>i. Finite 0))) =
     Inr ()
   \<and> self_n (snd (update_all True [pixels_0_10, pixels_0_10]
        (new_statistics [2] 0 (\<lambda>i. Finite 0)))) = 2
   \<and> data (var (snd (update_all True [pixels_0_10, pixels_0_10]
        (new_statistics [2] 0 (\<lambda>i. Finite 0))))) ! 0 = NaN"
proof -
  let ?start = "new_statistics [2] 0 (\<lambda>i. Finite 0)"
  let ?s1 = "snd (update pixels_0_10 True ?start)"
  let ?s2 = "snd (update pixels_0_10 True ?s1)"
  have pos: "0 < prod_list [2::nat]" by simp
  have z: "image_of_shape [2] pixels_0_10" by (simp add: image_of_shape_def pixels_0_10_def)
  have x: "data (if True then np_log10 pixels_0_10 else pixels_0_10) ! 0 = NegInf"
    by (simp add: np_log10_def pixels_0_10_def)
  note ws0 = new_statistics_well_shaped [of "[2]" 0 "\<lambda>i. Finite 0"]
  note U1 = update_well_shaped [OF ws0 z pos, where lt = True]
  note U2 = update_well_shaped [OF U1(2) z pos, where lt = True]
  have m0: "data (self_mean ?start) ! 0 = Finite 0" "data (self_M2 ?start) ! 0 = Finite 0"
    by (simp_all add: new_statistics_0 np_zeros_def)
  have m1: "data (self_mean ?s1) ! 0 = NegInf"
    unfolding U1(7) [OF pos] x m0 by (simp add: float_sub_def new_statistics_0)
  have q1: "data (self_M2 ?s1) ! 0 = NaN"
    unfolding U1(8) [OF pos] x m0 m1 by (simp add: float_sub_def)
  have q2: "data (self_M2 ?s2) ! 0 = NaN"
    unfolding U2(8) [OF pos] q1 by simp
  have "update_all True [pixels_0_10, pixels_0_10] ?start = update_all True [pixels_0_10] ?s1"
    using U1(1) by (cases "update pixels_0_10 True ?start") (auto split: sum.splits)
  then have st: "update_all True [pixels_0_10, pixels_0_10] ?start =
      update pixels_0_10 True ?s1"
    by (simp only: update_all_single)
  have n2: "self_n ?s2 = 2" by (simp add: U2(3) U1(3) new_statistics_0)
  from U2(2) have l: "0 < length (data (self_M2 ?s2))"
    by (simp add: well_shaped_def image_of_shape_def)
  have "data (var ?s2) ! 0 = NaN"
    using l by (simp add: var_def n2 q2)
  with U2(1) n2 show ?thesis unfolding st by simp
qed

end
